theory Spec2Isabelle
  imports Complex_Main "HOL-Library.Multiset"
begin

section \<open>PickIt: the session engine of \<^verbatim>\<open>src/src/PickItApp.jsx\<close>\<close>

text \<open>
  The application keeps three Firestore collections (\<^verbatim>\<open>sessions\<close>, \<^verbatim>\<open>participants\<close>,
  \<^verbatim>\<open>votes\<close>) and, in every browser, the React state of the \<^verbatim>\<open>App\<close> component.
  The collections are modelled as maps from document id to document, the React state as
  a record, and every action of \<^verbatim>\<open>App\<close> as a function from the pair of both to the
  pair after the action. What an action gets from outside (the random number behind a
  session id, the server's time stamp, the answer of the restaurant search, the shuffled
  fallback list) is a parameter.
\<close>

subsection \<open>Documents\<close>

text \<open>
  A candidate is one element of \<^verbatim>\<open>MOCK_RESTAURANTS\<close> or one mapped Yelp business
  (lines 83-134 and 181-190). The fields \<^verbatim>\<open>id\<close>, \<^verbatim>\<open>name\<close> and \<^verbatim>\<open>image\<close> carry a
  suffix because the bare names are taken.
\<close>

record candidate =
  id_c :: string
  name_c :: string
  image_c :: string
  rating :: rat
  reviewCount :: nat
  price :: string
  cuisine :: string
  address :: string

text \<open>The three strings the code ever writes to \<^verbatim>\<open>status\<close>.\<close>

datatype status = Open | Voting | Finished

text \<open>
  A session document: \<^verbatim>\<open>createSession\<close> writes every field but \<^verbatim>\<open>winner\<close>, which is
  absent (\<open>None\<close>) until \<^verbatim>\<open>endVoting\<close> adds it.
\<close>

record session =
  hostId :: string
  location :: string
  status :: status
  createdAt :: nat
  candidates :: "candidate list"
  winner :: "candidate option"

text \<open>
  The field \<^verbatim>\<open>sessionId\<close> of a participant or a vote is whatever the React state
  \<^verbatim>\<open>sessionId\<close> held when the document was written: a string, or \<^verbatim>\<open>null\<close> (\<open>None\<close>).
\<close>

record participant =
  sessionId_p :: "string option"
  userId_p :: string
  name_p :: string
  preference :: string
  isHost :: bool

record vote =
  sessionId_v :: "string option"
  userId_v :: string
  restaurantId :: string

text \<open>The three collections, by document id.\<close>

record store =
  sessions_coll :: "string \<rightharpoonup> session"
  participants_coll :: "string \<rightharpoonup> participant"
  votes_coll :: "string \<rightharpoonup> vote"

definition empty_store :: store where
  "empty_store = \<lparr>sessions_coll = Map.empty, participants_coll = Map.empty, votes_coll = Map.empty\<rparr>"

subsection \<open>The React state of \<^verbatim>\<open>App\<close> (lines 698-706)\<close>

datatype view = LandingV | JoinV | LobbyV | LoadingV | VotingV | WinnerV

text \<open>
  \<open>user\<close> holds \<^verbatim>\<open>user.uid\<close> (\<open>None\<close> while nobody is signed in), \<open>sessionData\<close> the
  last session document the listener delivered, \<open>participants\<close> and \<open>votes\<close> the last
  query results.
\<close>

record client =
  user :: "string option"
  view :: view
  sessionId :: "string option"
  sessionData :: "session option"
  participants :: "participant list"
  votes :: "vote list"
  loadingMsg :: string
  isStarting :: bool
  usingMock :: bool

text \<open>
  What a call can throw: a JavaScript \<^verbatim>\<open>TypeError\<close> (a property read on
  \<^verbatim>\<open>undefined\<close> or \<^verbatim>\<open>null\<close>), Firestore's refusal of an \<^verbatim>\<open>updateDoc\<close> on a document
  that does not exist, its refusal of a field whose value is \<^verbatim>\<open>undefined\<close>, and its
  refusal of a document path with an empty last segment.
  A call that throws has written nothing; the React state it leaves is kept with the error.
\<close>

datatype error = TypeError | NotFound | InvalidData | InvalidArgument

type_synonym app_state = "store \<times> client"
type_synonym app_result = "(error \<times> client) + app_state"

subsection \<open>Document ids\<close>

text \<open>
  \<^verbatim>\<open>`${sid}_${user.uid}`\<close> (lines 788, 806, 822) and
  \<^verbatim>\<open>`${sessionId}_${user.uid}_${rid}`\<close> (line 930). A template literal prints
  \<^verbatim>\<open>null\<close> as the four letters. Ids are taken to be free of the path separator
  \<^verbatim>\<open>/\<close>.
\<close>

definition template :: "string option \<Rightarrow> string" where
  "template x = (case x of None \<Rightarrow> ''null'' | Some s \<Rightarrow> s)"

definition participantDocId :: "string option \<Rightarrow> string \<Rightarrow> string" where
  "participantDocId sid u = template sid @ ''_'' @ u"

definition voteDocId :: "string option \<Rightarrow> string \<Rightarrow> string \<Rightarrow> string" where
  "voteDocId sid u rid = template sid @ ''_'' @ u @ ''_'' @ rid"

subsection \<open>The tally object of \<^verbatim>\<open>endVoting\<close> (lines 870-873)\<close>

text \<open>
  \<^verbatim>\<open>counts\<close> is a plain JavaScript object used as a dictionary. It is modelled as the list
  of its own properties in the order they were created. A property's value is \<open>Some n\<close>
  for the number \<open>n\<close> and \<open>None\<close> for a value that is not a number, which arises
  for the names every object inherits from \<^verbatim>\<open>Object.prototype\<close>: there
  \<^verbatim>\<open>counts[k] || 0\<close> is the inherited function, and adding 1 to it gives a string.
  The accessor \<^verbatim>\<open>__proto__\<close> ignores the assignment of a string, so it never becomes
  an own property.
\<close>

definition inherited :: "string \<Rightarrow> bool" where
  "inherited k \<longleftrightarrow> k \<in> set [''constructor'', ''hasOwnProperty'', ''isPrototypeOf'',
     ''propertyIsEnumerable'', ''toLocaleString'', ''toString'', ''valueOf'', ''__proto__'',
     ''__defineGetter__'', ''__defineSetter__'', ''__lookupGetter__'', ''__lookupSetter__'']"

type_synonym js_object = "(string \<times> nat option) list"

fun assign :: "js_object \<Rightarrow> string \<Rightarrow> nat option \<Rightarrow> js_object" where
  "assign [] k v = [(k, v)]"
| "assign ((k', v') # ps) k v = (if k' = k then (k, v) # ps else (k', v') # assign ps k v)"

text \<open>One round of \<^verbatim>\<open>counts[k] = (counts[k] || 0) + 1\<close>.\<close>

definition bump :: "js_object \<Rightarrow> string \<Rightarrow> js_object" where
  "bump counts k =
     (case map_of counts k of
        Some (Some n) \<Rightarrow> assign counts k (Some (if n = 0 then 1 else n + 1))
      | Some None \<Rightarrow> assign counts k None
      | None \<Rightarrow>
          if k = ''__proto__'' then counts
          else if inherited k then assign counts k None
          else assign counts k (Some 1))"

definition tally :: "vote list \<Rightarrow> js_object" where
  "tally vs = foldl bump [] (map restaurantId vs)"

text \<open>
  \<^verbatim>\<open>Object.entries\<close> lists the own properties in the order of the language
  (OrdinaryOwnPropertyKeys): first the keys that are array indices, in ascending numeric
  order, then the other keys in the order of their creation. An array index is the
  canonical decimal string of an integer from 0 to \<open>2^32 - 2\<close>.
\<close>

definition is_digit :: "char \<Rightarrow> bool" where
  "is_digit c \<longleftrightarrow> 48 \<le> (of_char c :: nat) \<and> (of_char c :: nat) \<le> 57"

definition decimal :: "string \<Rightarrow> nat" where
  "decimal s = foldl (\<lambda>a c. 10 * a + ((of_char c :: nat) - 48)) 0 s"

definition array_index :: "string \<Rightarrow> nat option" where
  "array_index s =
     (if s = [] \<or> \<not> list_all is_digit s \<or> (1 < length s \<and> hd s = CHR ''0'') then None
      else if decimal s \<le> 4294967294 then Some (decimal s) else None)"

definition index_key :: "string \<Rightarrow> nat" where
  "index_key k = (case array_index k of Some n \<Rightarrow> n | None \<Rightarrow> 0)"

definition Object_entries :: "js_object \<Rightarrow> js_object" where
  "Object_entries obj =
     sort_key (\<lambda>p. index_key (fst p)) (filter (\<lambda>p. array_index (fst p) \<noteq> None) obj)
     @ filter (\<lambda>p. array_index (fst p) = None) obj"

subsection \<open>\<^verbatim>\<open>endVoting\<close> (lines 867-896)\<close>

text \<open>
  The body of the second \<^verbatim>\<open>forEach\<close> (lines 881-886) on the pair
  \<^verbatim>\<open>(winnerId, maxV)\<close>. A count that is not a number compares false.
\<close>

fun pick :: "string option \<times> int \<Rightarrow> string \<times> nat option \<Rightarrow> string option \<times> int" where
  "pick (winnerId, maxV) (rid, Some n) =
     (if int n > maxV then (Some rid, int n) else (winnerId, maxV))"
| "pick (winnerId, maxV) (rid, None) = (winnerId, maxV)"

text \<open>\<^verbatim>\<open>sessionData.candidates[0].id\<close>: a \<^verbatim>\<open>TypeError\<close> on the empty list.\<close>

definition first_id :: "candidate list \<Rightarrow> error + string" where
  "first_id cs = (case cs of [] \<Rightarrow> Inl TypeError | c # _ \<Rightarrow> Inr (id_c c))"

text \<open>
  Lines 875-888. \<^verbatim>\<open>!winnerId\<close> holds for \<^verbatim>\<open>null\<close> and for the empty string.
\<close>

definition winnerId_of :: "candidate list \<Rightarrow> vote list \<Rightarrow> error + string" where
  "winnerId_of cs vs =
     (if vs = [] then first_id cs
      else (case fst (foldl pick (None, - 1) (Object_entries (tally vs))) of
              Some w \<Rightarrow> if w = [] then first_id cs else Inr w
            | None \<Rightarrow> first_id cs))"

text \<open>
  Line 890: \<^verbatim>\<open>candidates.find(c => c.id === winnerId) || candidates[0]\<close>, which is
  \<^verbatim>\<open>undefined\<close> (\<open>None\<close>) only on the empty list.
\<close>

definition winner_of :: "candidate list \<Rightarrow> string \<Rightarrow> candidate option" where
  "winner_of cs w =
     (case find (\<lambda>c. id_c c = w) cs of
        Some c \<Rightarrow> Some c
      | None \<Rightarrow> (case cs of [] \<Rightarrow> None | c # _ \<Rightarrow> Some c))"

text \<open>
  \<^verbatim>\<open>updateDoc\<close> on a session document merges the given fields into the document and
  throws when there is none.
\<close>

definition updateDoc_session ::
  "store \<Rightarrow> string \<Rightarrow> (session \<Rightarrow> session) \<Rightarrow> error + store" where
  "updateDoc_session st sid f =
     (case sessions_coll st sid of
        None \<Rightarrow> Inl NotFound
      | Some d \<Rightarrow> Inr (st\<lparr>sessions_coll := (sessions_coll st)(sid \<mapsto> f d)\<rparr>))"

definition endVoting :: "app_state \<Rightarrow> app_result" where
  "endVoting s =
     (case s of (st, cl) \<Rightarrow>
        (case (user cl, sessionId cl, sessionData cl) of
           (Some u, Some sid, Some sd) \<Rightarrow>
             if sid = [] then Inr (st, cl)
             else
               (case winnerId_of (candidates sd) (votes cl) of
                  Inl e \<Rightarrow> Inl (e, cl)
                | Inr w \<Rightarrow>
                    (case winner_of (candidates sd) w of
                       None \<Rightarrow> Inl (InvalidData, cl)
                     | Some c \<Rightarrow>
                         (case updateDoc_session st sid
                                 (\<lambda>d. d\<lparr>status := Finished, winner := Some c\<rparr>) of
                            Inl e \<Rightarrow> Inl (e, cl)
                          | Inr st' \<Rightarrow> Inr (st', cl))))
         | _ \<Rightarrow> Inr (st, cl)))"

subsection \<open>Session ids (line 202)\<close>

text \<open>
  \<^verbatim>\<open>Math.random().toString(36).substring(2, 8).toUpperCase()\<close>. The parameter is the
  string \<^verbatim>\<open>Math.random().toString(36)\<close>: \<^verbatim>\<open>0\<close> for the number 0, and otherwise
  \<^verbatim>\<open>0.\<close> followed by the base-36 digits of the fraction, as many as the number needs
  (\<^verbatim>\<open>0.i\<close> for 0.5). \<open>toUpperCase\<close> is given on the letters such a string has.
\<close>

definition substring :: "nat \<Rightarrow> nat \<Rightarrow> string \<Rightarrow> string" where
  "substring i j s = take (j - i) (drop i s)"

definition toUpperCase :: "string \<Rightarrow> string" where
  "toUpperCase s =
     map (\<lambda>c. case map_of (zip ''abcdefghijklmnopqrstuvwxyz'' ''ABCDEFGHIJKLMNOPQRSTUVWXYZ'') c of
                Some C \<Rightarrow> C
              | None \<Rightarrow> c) s"

definition generateSessionId :: "string \<Rightarrow> string" where
  "generateSessionId random36 = toUpperCase (substring 2 8 random36)"

subsection \<open>What the actions get from outside\<close>

text \<open>
  \<open>random36\<close> is \<^verbatim>\<open>Math.random().toString(36)\<close>, \<open>serverTimestamp\<close> the time the
  server stamps, \<open>yelpResult\<close> what \<^verbatim>\<open>fetchYelpRestaurants\<close> returns (\<open>None\<close> for
  \<^verbatim>\<open>null\<close>; the location and the joined preferences it is called with only shape the
  remote answer), \<open>shuffled\<close> the array
  \<^verbatim>\<open>[...MOCK_RESTAURANTS].sort(() => 0.5 - Math.random())\<close>.
\<close>

record externals =
  random36 :: string
  serverTimestamp :: nat
  yelpResult :: "candidate list option"
  shuffled :: "candidate list"

subsection \<open>The actions of \<^verbatim>\<open>App\<close>\<close>

text \<open>
  The guards \<^verbatim>\<open>!user\<close> and \<^verbatim>\<open>!sessionData\<close> test an object for \<^verbatim>\<open>null\<close>;
  \<^verbatim>\<open>!sessionId\<close> tests a string and holds for \<^verbatim>\<open>null\<close> and for the empty string.
\<close>

text \<open>\<^verbatim>\<open>createSession\<close>, lines 776-801. Both \<^verbatim>\<open>setDoc\<close> calls replace the document.\<close>

definition createSession :: "string \<Rightarrow> string \<Rightarrow> externals \<Rightarrow> app_state \<Rightarrow> app_result" where
  "createSession hostName loc ext s =
     (case s of (st, cl) \<Rightarrow>
        (case user cl of
           None \<Rightarrow> Inr (st, cl)
         | Some u \<Rightarrow>
             let newSessionId = generateSessionId (random36 ext) in
             if newSessionId = [] then Inl (InvalidArgument, cl)
             else
               Inr (st\<lparr>sessions_coll := (sessions_coll st)(newSessionId \<mapsto>
                          \<lparr>hostId = u, location = loc, status = Open,
                           createdAt = serverTimestamp ext, candidates = [], winner = None\<rparr>),
                        participants_coll := (participants_coll st)
                          (participantDocId (Some newSessionId) u \<mapsto>
                          \<lparr>sessionId_p = Some newSessionId, userId_p = u, name_p = hostName,
                           preference = [], isHost = True\<rparr>)\<rparr>,
                    cl\<lparr>sessionId := Some newSessionId, view := LobbyV\<rparr>)))"

text \<open>\<^verbatim>\<open>joinSession\<close>, lines 803-815: a \<^verbatim>\<open>setDoc\<close> without \<^verbatim>\<open>merge\<close>.\<close>

definition joinSession :: "string \<Rightarrow> string option \<Rightarrow> app_state \<Rightarrow> app_result" where
  "joinSession participantName sid s =
     (case s of (st, cl) \<Rightarrow>
        (case user cl of
           None \<Rightarrow> Inr (st, cl)
         | Some u \<Rightarrow>
             Inr (st\<lparr>participants_coll := (participants_coll st)(participantDocId sid u \<mapsto>
                        \<lparr>sessionId_p = sid, userId_p = u, name_p = participantName,
                         preference = [], isHost = False\<rparr>)\<rparr>,
                  cl\<lparr>view := LobbyV\<rparr>)))"

text \<open>
  \<^verbatim>\<open>submitPreference\<close>, lines 817-829. \<^verbatim>\<open>currentPart?.name || 'User'\<close> is \<^verbatim>\<open>'User'\<close>
  also for the empty name. The \<^verbatim>\<open>setDoc\<close> merges, and it gives all five fields a
  participant document has.
\<close>

definition submitPreference :: "string \<Rightarrow> app_state \<Rightarrow> app_result" where
  "submitPreference prefText s =
     (case s of (st, cl) \<Rightarrow>
        (case (user cl, sessionId cl) of
           (Some u, Some sid) \<Rightarrow>
             if sid = [] then Inr (st, cl)
             else
               let currentPart = find (\<lambda>p. userId_p p = u) (participants cl) in
               Inr (st\<lparr>participants_coll := (participants_coll st)(participantDocId (Some sid) u \<mapsto>
                          \<lparr>sessionId_p = Some sid, userId_p = u,
                           name_p = (case currentPart of
                                       None \<Rightarrow> ''User''
                                     | Some p \<Rightarrow> if name_p p = [] then ''User'' else name_p p),
                           preference = prefText,
                           isHost = (case currentPart of None \<Rightarrow> False | Some p \<Rightarrow> isHost p)\<rparr>)\<rparr>,
                    cl)
         | _ \<Rightarrow> Inr (st, cl)))"

text \<open>
  \<^verbatim>\<open>startVoting\<close>, lines 831-865. \<^verbatim>\<open>sessionData.location\<close> throws when no session
  document has arrived; the fallback takes the first five of the shuffled list.
\<close>

definition startVoting :: "externals \<Rightarrow> app_state \<Rightarrow> app_result" where
  "startVoting ext s =
     (case s of (st, cl) \<Rightarrow>
        (case (user cl, sessionId cl) of
           (Some u, Some sid) \<Rightarrow>
             if sid = [] then Inr (st, cl)
             else
               let cl1 = cl\<lparr>isStarting := True, loadingMsg := ''Consulting the Yelp gods...'',
                           view := LoadingV\<rparr> in
               (case sessionData cl of
                  None \<Rightarrow> Inl (TypeError, cl1)
                | Some sd \<Rightarrow>
                    let mock = (case yelpResult ext of None \<Rightarrow> True | Some ys \<Rightarrow> ys = []);
                        selected = (case yelpResult ext of
                                      None \<Rightarrow> take 5 (shuffled ext)
                                    | Some ys \<Rightarrow> if ys = [] then take 5 (shuffled ext) else ys);
                        cl2 = cl1\<lparr>usingMock := mock\<rparr>
                    in (case updateDoc_session st sid
                                (\<lambda>d. d\<lparr>status := Voting, candidates := selected\<rparr>) of
                          Inl e \<Rightarrow> Inl (e, cl2)
                        | Inr st' \<Rightarrow> Inr (st', cl2\<lparr>isStarting := False\<rparr>)))
         | _ \<Rightarrow> Inr (st, cl)))"

text \<open>
  \<^verbatim>\<open>onVote\<close>, lines 929-946. \<^verbatim>\<open>user.uid\<close> throws when nobody is signed in; an error
  of \<^verbatim>\<open>deleteDoc\<close> is caught and logged. Deleting a document that does not exist
  succeeds.
\<close>

definition existing_vote :: "client \<Rightarrow> string \<Rightarrow> string \<Rightarrow> vote option" where
  "existing_vote cl u rid = find (\<lambda>v. userId_v v = u \<and> restaurantId v = rid) (votes cl)"

definition onVote :: "string \<Rightarrow> app_state \<Rightarrow> app_result" where
  "onVote rid s =
     (case s of (st, cl) \<Rightarrow>
        (case user cl of
           None \<Rightarrow> Inl (TypeError, cl)
         | Some u \<Rightarrow>
             let voteDoc = voteDocId (sessionId cl) u rid in
             (case existing_vote cl u rid of
                Some v \<Rightarrow> Inr (st\<lparr>votes_coll := (votes_coll st)(voteDoc := None)\<rparr>, cl)
              | None \<Rightarrow>
                  Inr (st\<lparr>votes_coll := (votes_coll st)(voteDoc \<mapsto>
                             \<lparr>sessionId_v = sessionId cl, userId_v = u, restaurantId = rid\<rparr>)\<rparr>,
                       cl))))"

text \<open>\<^verbatim>\<open>resetApp\<close>, lines 898-906.\<close>

definition resetApp :: "app_state \<Rightarrow> app_result" where
  "resetApp s =
     (case s of (st, cl) \<Rightarrow>
        Inr (st, cl\<lparr>sessionId := None, sessionData := None, participants := [], votes := [],
                   view := LandingV, usingMock := False\<rparr>))"

subsection \<open>The listeners (lines 737-766)\<close>

text \<open>
  Each takes what Firestore delivers: the session document (\<open>None\<close> when it does not
  exist) and the data of the documents a query matches.
\<close>

definition onSessionSnapshot :: "session option \<Rightarrow> client \<Rightarrow> client" where
  "onSessionSnapshot docSnap cl =
     (case docSnap of
        None \<Rightarrow> cl
      | Some d \<Rightarrow>
          cl\<lparr>sessionData := Some d,
             view := (if status d = Voting \<and> view cl \<noteq> VotingV then VotingV
                      else if status d = Finished \<and> view cl \<noteq> WinnerV then WinnerV
                      else view cl)\<rparr>)"

definition onParticipantsSnapshot :: "participant list \<Rightarrow> client \<Rightarrow> client" where
  "onParticipantsSnapshot parts cl = cl\<lparr>participants := parts\<rparr>"

definition onVotesSnapshot :: "vote list \<Rightarrow> client \<Rightarrow> client" where
  "onVotesSnapshot v cl = cl\<lparr>votes := v\<rparr>"

text \<open>
  What the store adapter promises of a delivery: the votes query
  \<^verbatim>\<open>where('sessionId', '==', sessionId)\<close> yields the data of every matching document
  once, in some order.
\<close>

definition votes_snapshot :: "store \<Rightarrow> string \<Rightarrow> vote list \<Rightarrow> bool" where
  "votes_snapshot st sid vs \<longleftrightarrow>
     (\<exists>ks. distinct ks
         \<and> set ks = {k. \<exists>v. votes_coll st k = Some v \<and> sessionId_v v = Some sid}
         \<and> map (votes_coll st) ks = map Some vs)"

subsection \<open>What the components offer (lines 236-690 and 908-965)\<close>

text \<open>
  An event is a submit or a click on a control. The control exists only in the view that
  renders its component, and only under the condition the component renders it with; an
  event on a control that is not there does nothing. The text fields are the event's
  arguments. \<open>blank s\<close> is \<^verbatim>\<open>!s.trim()\<close>.
\<close>

datatype event =
    LandingSubmit string string
  | JoinSubmit string
  | LobbySubmit string
  | LobbyEdit
  | LobbyStart
  | VotingCard string
  | VotingEnd
  | WinnerReset

definition is_space :: "char \<Rightarrow> bool" where
  "is_space c \<longleftrightarrow> (of_char c :: nat) \<in> {9, 10, 11, 12, 13, 32, 160}"

definition blank :: "string \<Rightarrow> bool" where
  "blank s \<longleftrightarrow> list_all is_space s"

text \<open>Lobby, lines 342-344: \<^verbatim>\<open>!!userParticipant?.preference\<close>.\<close>

definition hasSubmitted :: "client \<Rightarrow> bool" where
  "hasSubmitted cl =
     (case user cl of
        None \<Rightarrow> False
      | Some u \<Rightarrow>
          (case find (\<lambda>p. userId_p p = u) (participants cl) of
             None \<Rightarrow> False
           | Some p \<Rightarrow> preference p \<noteq> []))"

text \<open>\<^verbatim>\<open>session.hostId === userId\<close>, with \<^verbatim>\<open>userId = user?.uid\<close>.\<close>

definition isHostOf :: "session \<Rightarrow> client \<Rightarrow> bool" where
  "isHostOf sd cl \<longleftrightarrow> user cl = Some (hostId sd)"

definition dispatch :: "externals \<Rightarrow> event \<Rightarrow> app_state \<Rightarrow> app_result" where
  "dispatch ext ev s =
     (case s of (st, cl) \<Rightarrow>
        (case ev of
           LandingSubmit nm loc \<Rightarrow>
             if view cl = LandingV \<and> \<not> blank nm \<and> \<not> blank loc
             then createSession nm loc ext s else Inr s
         | JoinSubmit nm \<Rightarrow>
             if view cl = JoinV \<and> \<not> blank nm then joinSession nm (sessionId cl) s else Inr s
         | LobbySubmit craving \<Rightarrow>
             if view cl = LobbyV \<and> sessionData cl \<noteq> None \<and> \<not> hasSubmitted cl \<and> \<not> blank craving
             then submitPreference craving s else Inr s
         | LobbyEdit \<Rightarrow>
             if view cl = LobbyV \<and> sessionData cl \<noteq> None \<and> hasSubmitted cl
             then submitPreference [] s else Inr s
         | LobbyStart \<Rightarrow>
             (case sessionData cl of
                None \<Rightarrow> Inr s
              | Some sd \<Rightarrow>
                  if view cl = LobbyV \<and> isHostOf sd cl
                     \<and> \<not> (length (participants cl) < 1 \<or> isStarting cl)
                  then startVoting ext s else Inr s)
         | VotingCard rid \<Rightarrow>
             (case sessionData cl of
                None \<Rightarrow> Inr s
              | Some sd \<Rightarrow>
                  if view cl = VotingV \<and> rid \<in> set (map id_c (candidates sd))
                  then onVote rid s else Inr s)
         | VotingEnd \<Rightarrow>
             (case sessionData cl of
                None \<Rightarrow> Inr s
              | Some sd \<Rightarrow>
                  if view cl = VotingV \<and> isHostOf sd cl then endVoting s else Inr s)
         | WinnerReset \<Rightarrow>
             (case sessionData cl of
                None \<Rightarrow> Inr s
              | Some sd \<Rightarrow>
                  if view cl = WinnerV \<and> winner sd \<noteq> None then resetApp s else Inr s)))"

subsection \<open>The fallback list \<^verbatim>\<open>MOCK_RESTAURANTS\<close> (lines 83-134)\<close>

definition r1 :: candidate where
  "r1 = \<lparr>id_c = ''r1'', name_c = ''Che Butter Jonez (Mock)'',
     image_c = ''https://images.unsplash.com/photo-1568901346375-23c9450c58cd?auto=format&fit=crop&w=800&q=80'',
     rating = 48 / 10, reviewCount = 342, price = ''$$'', cuisine = ''Halal, Burgers, Seafood'',
     address = ''1602 Lavista Rd NE, Atlanta, GA 30329''\<rparr>"

definition r2 :: candidate where
  "r2 = \<lparr>id_c = ''r2'', name_c = ''NFA Burger - Dunwoody'',
     image_c = ''https://images.unsplash.com/photo-1550547660-d9450f859349?auto=format&fit=crop&w=800&q=80'',
     rating = 46 / 10, reviewCount = 890, price = ''$$'', cuisine = ''Burgers, American'',
     address = ''5465 Chamblee Dunwoody Rd, Dunwoody, GA 30338''\<rparr>"

definition r3 :: candidate where
  "r3 = \<lparr>id_c = ''r3'', name_c = ''Wheelhouse Craft Pub'',
     image_c = ''https://images.unsplash.com/photo-1514933651103-005eec06c04b?auto=format&fit=crop&w=800&q=80'',
     rating = 45 / 10, reviewCount = 210, price = ''$$'', cuisine = ''Pubs, Fish & Chips, Burgers'',
     address = ''1479 Scott Blvd, Decatur, GA 30030''\<rparr>"

definition r4 :: candidate where
  "r4 = \<lparr>id_c = ''r4'', name_c = ''Atlanta Breakfast Club'',
     image_c = ''https://images.unsplash.com/photo-1533089862017-ecc323f5194b?auto=format&fit=crop&w=800&q=80'',
     rating = 45 / 10, reviewCount = 3500, price = ''$$'', cuisine = ''Southern, Breakfast & Brunch'',
     address = ''249 Ivan Allen Jr Blvd, Atlanta, GA 30313''\<rparr>"

definition r5 :: candidate where
  "r5 = \<lparr>id_c = ''r5'', name_c = ''Whiskey Bird'',
     image_c = ''https://images.unsplash.com/photo-1559339352-11d035aa65de?auto=format&fit=crop&w=800&q=80'',
     rating = 44 / 10, reviewCount = 520, price = ''$$'', cuisine = ''Asian Fusion, Yakitori'',
     address = ''1409 North Highland Ave NE, Atlanta, GA 30306''\<rparr>"

definition MOCK_RESTAURANTS :: "candidate list" where
  "MOCK_RESTAURANTS = [r1, r2, r3, r4, r5]"

subsection \<open>A sample session\<close>

text \<open>
  The answers from outside in the sample: the random number prints \<^verbatim>\<open>0.k3x9qa7lm2\<close>,
  the search is not available, and the shuffle puts \<open>r3\<close> first.
\<close>

definition sample_externals :: externals where
  "sample_externals = \<lparr>random36 = ''0.k3x9qa7lm2'', serverTimestamp = 1,
     yelpResult = None, shuffled = [r3, r1, r5, r2, r4]\<rparr>"

text \<open>
  The host \<open>alex\<close> opens session \<open>K3X9QA\<close> and \<open>sam\<close> joins; both submit a preference
  (\<open>open_store\<close>). \<open>guest_client\<close> is the browser of \<open>sam\<close> in the lobby.
\<close>

definition alex_part :: participant where
  "alex_part = \<lparr>sessionId_p = Some ''K3X9QA'', userId_p = ''alex'', name_p = ''Alex'',
     preference = ''tacos'', isHost = True\<rparr>"

definition sam_part :: participant where
  "sam_part = \<lparr>sessionId_p = Some ''K3X9QA'', userId_p = ''sam'', name_p = ''Sam'',
     preference = ''sushi'', isHost = False\<rparr>"

definition open_session :: session where
  "open_session = \<lparr>hostId = ''alex'', location = ''Atlanta, GA'', status = Open,
     createdAt = 1, candidates = [], winner = None\<rparr>"

definition open_store :: store where
  "open_store = \<lparr>sessions_coll = [''K3X9QA'' \<mapsto> open_session],
     participants_coll = [''K3X9QA_alex'' \<mapsto> alex_part, ''K3X9QA_sam'' \<mapsto> sam_part],
     votes_coll = Map.empty\<rparr>"

definition guest_client :: client where
  "guest_client = \<lparr>user = Some ''sam'', view = LobbyV, sessionId = Some ''K3X9QA'',
     sessionData = Some open_session, participants = [alex_part, sam_part],
     votes = [], loadingMsg = [], isStarting = False, usingMock = False\<rparr>"

text \<open>
  The host has started the vote on the fallback list and nobody has voted yet
  (\<open>sample_store\<close>); \<open>host_client\<close> is the host's browser in the voting view.
\<close>

definition sample_session :: session where
  "sample_session = \<lparr>hostId = ''alex'', location = ''Atlanta, GA'', status = Voting,
     createdAt = 1, candidates = [r3, r1, r5, r2, r4], winner = None\<rparr>"

definition sample_store :: store where
  "sample_store = \<lparr>sessions_coll = [''K3X9QA'' \<mapsto> sample_session],
     participants_coll = [''K3X9QA_alex'' \<mapsto> alex_part, ''K3X9QA_sam'' \<mapsto> sam_part],
     votes_coll = Map.empty\<rparr>"

definition host_client :: client where
  "host_client = \<lparr>user = Some ''alex'', view = VotingV, sessionId = Some ''K3X9QA'',
     sessionData = Some sample_session, participants = [alex_part, sam_part],
     votes = [], loadingMsg = [], isStarting = False, usingMock = True\<rparr>"

text \<open>The vote under way: \<open>sam\<close> has voted for \<open>r2\<close> (\<open>voting_store\<close>).\<close>

definition sam_vote :: vote where
  "sam_vote = \<lparr>sessionId_v = Some ''K3X9QA'', userId_v = ''sam'', restaurantId = ''r2''\<rparr>"

definition alex_vote :: vote where
  "alex_vote = \<lparr>sessionId_v = Some ''K3X9QA'', userId_v = ''alex'', restaurantId = ''r1''\<rparr>"

definition voting_store :: store where
  "voting_store = \<lparr>sessions_coll = [''K3X9QA'' \<mapsto> sample_session],
     participants_coll = [''K3X9QA_alex'' \<mapsto> alex_part, ''K3X9QA_sam'' \<mapsto> sam_part],
     votes_coll = [''K3X9QA_sam_r2'' \<mapsto> sam_vote]\<rparr>"

definition voting_client :: client where
  "voting_client = \<lparr>user = Some ''alex'', view = VotingV, sessionId = Some ''K3X9QA'',
     sessionData = Some sample_session, participants = [alex_part, sam_part],
     votes = [sam_vote], loadingMsg = [], isStarting = False, usingMock = True\<rparr>"

subsection \<open>Vote documents and their ids\<close>

text \<open>
  Every vote document sits under the id built from its own fields. \<^verbatim>\<open>onVote\<close>, the only
  writer of the collection, keeps it so.
\<close>

definition stored_under_own_id :: "store \<Rightarrow> bool" where
  "stored_under_own_id st \<longleftrightarrow>
     (\<forall>k v. votes_coll st k = Some v \<longrightarrow>
        k = voteDocId (sessionId_v v) (userId_v v) (restaurantId v))"

subsection \<open>Runs of the application\<close>

text \<open>The actions of \<^verbatim>\<open>App\<close> by name, with their arguments.\<close>

datatype call =
    CreateSession string string
  | JoinSession string "string option"
  | SubmitPreference string
  | StartVoting
  | EndVoting
  | OnVote string
  | ResetApp

definition perform :: "externals \<Rightarrow> call \<Rightarrow> app_state \<Rightarrow> app_result" where
  "perform ext c s =
     (case c of
        CreateSession hostName loc \<Rightarrow> createSession hostName loc ext s
      | JoinSession participantName sid \<Rightarrow> joinSession participantName sid s
      | SubmitPreference prefText \<Rightarrow> submitPreference prefText s
      | StartVoting \<Rightarrow> startVoting ext s
      | EndVoting \<Rightarrow> endVoting s
      | OnVote rid \<Rightarrow> onVote rid s
      | ResetApp \<Rightarrow> resetApp s)"

text \<open>
  A write is applied to the store as it is when the write arrives, which is not the store
  the browser saw when the user clicked: the listeners deliver later, and
  \<^verbatim>\<open>startVoting\<close> writes only after the search and a timer. A run therefore lets every
  call meet any React state, however stale. Two things are kept of the source. First,
  \<open>sessionData\<close> is only ever set by the session listener, from a document of the
  selected session (line 740), and \<open>sessionId\<close> is set only while \<open>sessionData\<close> is
  \<^verbatim>\<open>null\<close>: from the URL at mount (line 726), by \<^verbatim>\<open>createSession\<close> from the landing
  view (line 796), whose button is disabled after the first submit (lines 244 and 282),
  and by \<^verbatim>\<open>resetApp\<close>, which clears both (lines 899-900). So the candidate list of
  \<open>sessionData\<close> is empty or the candidate list of a document that session holds or has
  held; which of them, and how old, is left open. Second, the
  shuffled list is a rearrangement of \<^verbatim>\<open>MOCK_RESTAURANTS\<close>. Session ids are taken to
  be fresh at creation. \<open>held sid\<close> is the set of documents session \<open>sid\<close> holds or has
  held. The two writes of \<^verbatim>\<open>createSession\<close> are applied together; the second touches
  only the participants.
\<close>

type_synonym held = "string \<Rightarrow> session set"

definition hold :: "store \<Rightarrow> held \<Rightarrow> held" where
  "hold st held = (\<lambda>sid. held sid \<union> set_option (sessions_coll st sid))"

definition in_touch :: "held \<Rightarrow> client \<Rightarrow> bool" where
  "in_touch held cl \<longleftrightarrow>
     (case (sessionId cl, sessionData cl) of
        (Some sid, Some sd) \<Rightarrow>
          candidates sd = [] \<or> (\<exists>h\<in>held sid. candidates h = candidates sd)
      | _ \<Rightarrow> True)"

definition fresh_id :: "store \<Rightarrow> externals \<Rightarrow> call \<Rightarrow> bool" where
  "fresh_id st ext c \<longleftrightarrow>
     (case c of
        CreateSession hostName loc \<Rightarrow> generateSessionId (random36 ext) \<notin> dom (sessions_coll st)
      | _ \<Rightarrow> True)"

inductive call_step :: "store \<times> held \<Rightarrow> store \<times> held \<Rightarrow> bool" where
  "in_touch held cl \<Longrightarrow> fresh_id st ext c \<Longrightarrow> mset (shuffled ext) = mset MOCK_RESTAURANTS \<Longrightarrow>
   perform ext c (st, cl) = Inr (st', cl') \<Longrightarrow> call_step (st, held) (st', hold st' held)"

definition run :: "store \<times> held \<Rightarrow> bool" where
  "run s \<longleftrightarrow> call_step\<^sup>*\<^sup>* (empty_store, \<lambda>sid. {}) s"

text \<open>
  The moves of the status a single write can make: none, to voting from anywhere, and to
  finished from voting or finished.
\<close>

definition moves :: "status \<Rightarrow> status \<Rightarrow> bool" where
  "moves p q \<longleftrightarrow> q = p \<or> q = Voting \<or> (p \<noteq> Open \<and> q = Finished)"

text \<open>What a run keeps true of the store and of the documents held.\<close>

definition sound :: "store \<times> held \<Rightarrow> bool" where
  "sound s \<longleftrightarrow>
     (case s of (st, held) \<Rightarrow>
        (\<forall>sid d. sessions_coll st sid = Some d \<longrightarrow> d \<in> held sid)
      \<and> (\<forall>sid h. h \<in> held sid \<longrightarrow> sessions_coll st sid \<noteq> None)
      \<and> (\<forall>sid h d. h \<in> held sid \<longrightarrow> candidates h \<noteq> [] \<longrightarrow> sessions_coll st sid = Some d \<longrightarrow>
            status d \<noteq> Open)
      \<and> (\<forall>sid d. sessions_coll st sid = Some d \<longrightarrow>
            (status d \<noteq> Open \<longrightarrow> candidates d \<noteq> [])
          \<and> (status d = Finished \<longrightarrow>
                (\<exists>w h. winner d = Some w \<and> h \<in> held sid \<and> w \<in> set (candidates h)))))"

text \<open>The trace of the sample: created, started, finished with no votes.\<close>

definition landing_client :: client where
  "landing_client = \<lparr>user = Some ''alex'', view = LandingV, sessionId = None,
     sessionData = None, participants = [], votes = [], loadingMsg = [], isStarting = False,
     usingMock = False\<rparr>"

definition created_store :: store where
  "created_store = \<lparr>sessions_coll = [''K3X9QA'' \<mapsto> open_session],
     participants_coll = [''K3X9QA_alex'' \<mapsto> alex_part\<lparr>preference := []\<rparr>],
     votes_coll = Map.empty\<rparr>"

definition lobby_client :: client where
  "lobby_client = \<lparr>user = Some ''alex'', view = LobbyV, sessionId = Some ''K3X9QA'',
     sessionData = Some open_session, participants = [alex_part\<lparr>preference := []\<rparr>],
     votes = [], loadingMsg = [], isStarting = False, usingMock = False\<rparr>"

definition started_store :: store where
  "started_store = \<lparr>sessions_coll = [''K3X9QA'' \<mapsto> sample_session],
     participants_coll = [''K3X9QA_alex'' \<mapsto> alex_part\<lparr>preference := []\<rparr>],
     votes_coll = Map.empty\<rparr>"

definition finished_store :: store where
  "finished_store = \<lparr>sessions_coll =
       [''K3X9QA'' \<mapsto> sample_session\<lparr>status := Finished, winner := Some r3\<rparr>],
     participants_coll = [''K3X9QA_alex'' \<mapsto> alex_part\<lparr>preference := []\<rparr>],
     votes_coll = Map.empty\<rparr>"

text \<open>
  A second start in the same session: another tab of the host, still in the lobby, gets
  an answer from the search and its write arrives after the first start
  (\<open>restarted_store\<close>). The first tab, still holding the fallback list, then ends the
  vote (\<open>crossed_store\<close>).
\<close>

definition y1 :: candidate where
  "y1 = \<lparr>id_c = ''Qm3x0VtLkP7aZe8sWc1YbA'', name_c = ''The Varsity'',
     image_c = ''https://images.unsplash.com/photo-1517248135467-4c7edcad34c4?auto=format&fit=crop&w=800&q=60'',
     rating = 4, reviewCount = 1200, price = ''$'', cuisine = ''American'',
     address = ''61 North Avenue NW''\<rparr>"

definition yelp_externals :: externals where
  "yelp_externals = \<lparr>random36 = ''0.7mq2vd81'', serverTimestamp = 2,
     yelpResult = Some [y1], shuffled = [r1, r2, r3, r4, r5]\<rparr>"

definition restarted_store :: store where
  "restarted_store = started_store\<lparr>sessions_coll :=
       [''K3X9QA'' \<mapsto> sample_session\<lparr>candidates := [y1]\<rparr>]\<rparr>"

definition crossed_store :: store where
  "crossed_store = started_store\<lparr>sessions_coll :=
       [''K3X9QA'' \<mapsto> sample_session\<lparr>status := Finished, candidates := [y1], winner := Some r3\<rparr>]\<rparr>"

text \<open>The documents held along the two sample runs.\<close>

definition created_held :: held where
  "created_held = hold created_store (\<lambda>sid. {})"

definition started_held :: held where
  "started_held = hold started_store created_held"

definition finished_held :: held where
  "finished_held = hold finished_store started_held"

definition restarted_held :: held where
  "restarted_held = hold restarted_store started_held"

definition crossed_held :: held where
  "crossed_held = hold crossed_store restarted_held"

subsection \<open>The winner, in the words of the specification\<close>

text \<open>
  The number of votes a candidate id has, the ids in the order in which they first
  received a vote, and the order in which \<^verbatim>\<open>Object.entries\<close> lists the tally: ids that
  are array indices first, by their number, then the others in the order of their first
  vote.
\<close>

definition vote_count :: "vote list \<Rightarrow> string \<Rightarrow> nat" where
  "vote_count vs k = length (filter (\<lambda>v. restaurantId v = k) vs)"

definition first_seen :: "string list \<Rightarrow> string list" where
  "first_seen ks = rev (remdups (rev ks))"

definition ballot_order :: "vote list \<Rightarrow> string list" where
  "ballot_order vs =
     (let ks = first_seen (map restaurantId vs)
      in sort_key index_key (filter (\<lambda>k. array_index k \<noteq> None) ks)
         @ filter (\<lambda>k. array_index k = None) ks)"

text \<open>
  An id that is neither empty nor a name inherited from \<^verbatim>\<open>Object.prototype\<close>.
\<close>

definition ordinary :: "string \<Rightarrow> bool" where
  "ordinary k \<longleftrightarrow> k \<noteq> [] \<and> \<not> inherited k"

text \<open>
  Three votes in the sample session: \<open>r2\<close> has two and \<open>r1\<close> has one
  (\<open>tally_client\<close> is the host's browser holding them).
\<close>

definition alex_vote2 :: vote where
  "alex_vote2 = \<lparr>sessionId_v = Some ''K3X9QA'', userId_v = ''alex'', restaurantId = ''r2''\<rparr>"

definition tally_store :: store where
  "tally_store = voting_store\<lparr>votes_coll := [''K3X9QA_sam_r2'' \<mapsto> sam_vote,
     ''K3X9QA_alex_r1'' \<mapsto> alex_vote, ''K3X9QA_alex_r2'' \<mapsto> alex_vote2]\<rparr>"

definition tally_client :: client where
  "tally_client = host_client\<lparr>votes := [sam_vote, alex_vote, alex_vote2]\<rparr>"

text \<open>
  A session whose two candidates carry the ids \<open>2\<close> and \<open>1\<close>, with one vote each; the
  vote for \<open>2\<close> comes first.
\<close>

definition numbered_session :: session where
  "numbered_session = sample_session\<lparr>candidates := [r1\<lparr>id_c := ''2''\<rparr>, r2\<lparr>id_c := ''1''\<rparr>]\<rparr>"

definition numbered_store :: store where
  "numbered_store = sample_store\<lparr>sessions_coll := [''K3X9QA'' \<mapsto> numbered_session]\<rparr>"

definition numbered_votes :: "vote list" where
  "numbered_votes =
     [\<lparr>sessionId_v = Some ''K3X9QA'', userId_v = ''sam'', restaurantId = ''2''\<rparr>,
      \<lparr>sessionId_v = Some ''K3X9QA'', userId_v = ''alex'', restaurantId = ''1''\<rparr>]"

definition numbered_client :: client where
  "numbered_client = host_client\<lparr>sessionData := Some numbered_session, votes := numbered_votes\<rparr>"

section \<open>Theorems\<close>

lemma winner_of_first: "winner_of (c # cs) (id_c c) = Some c"
  by (simp add: winner_of_def)

text \<open>
  Claim C2. With no votes, \<^verbatim>\<open>endVoting\<close> stores exactly \<^verbatim>\<open>candidates[0]\<close>, the first
  candidate of the session's list, as the winner (and sets the status to finished):
  for a signed-in browser with a selected session whose candidate list is \<open>c # cs\<close> and
  whose document exists, the call does not throw and the only change is the session
  document's \<open>status\<close> and \<open>winner\<close>. The status before the call plays no part.
\<close>

theorem endVoting_no_votes:
  assumes "user cl = Some u" and "sessionId cl = Some sid" and "sid \<noteq> []"
    and "sessionData cl = Some sd" and "sessions_coll st sid = Some d"
    and "candidates sd = c # cs" and "votes cl = []"
  shows "endVoting (st, cl) =
           Inr (st\<lparr>sessions_coll := (sessions_coll st)(sid \<mapsto> d\<lparr>status := Finished, winner := Some c\<rparr>)\<rparr>, cl)"
  using assms
  by (simp add: endVoting_def winnerId_of_def first_id_def winner_of_first updateDoc_session_def)

theorem endVoting_no_votes_witness:
  "user host_client = Some ''alex'' \<and> sessionId host_client = Some ''K3X9QA''
   \<and> ''K3X9QA'' \<noteq> [] \<and> sessionData host_client = Some sample_session
   \<and> sessions_coll sample_store ''K3X9QA'' = Some sample_session
   \<and> candidates sample_session = r3 # [r1, r5, r2, r4] \<and> votes host_client = []
   \<and> endVoting (sample_store, host_client) =
         Inr (sample_store\<lparr>sessions_coll := (sessions_coll sample_store)(''K3X9QA'' \<mapsto>
                sample_session\<lparr>status := Finished, winner := Some r3\<rparr>)\<rparr>, host_client)"
proof -
  have h: "user host_client = Some ''alex''" "sessionId host_client = Some ''K3X9QA''"
    "''K3X9QA'' \<noteq> []" "sessionData host_client = Some sample_session"
    "sessions_coll sample_store ''K3X9QA'' = Some sample_session"
    "candidates sample_session = r3 # [r1, r5, r2, r4]" "votes host_client = []"
    by (simp_all add: host_client_def sample_store_def sample_session_def)
  from endVoting_no_votes [OF h] h show ?thesis by simp
qed

subsection \<open>The session id\<close>

lemma generateSessionId_length: "length (generateSessionId r) = min 6 (length r - 2)"
  by (simp add: generateSessionId_def toUpperCase_def substring_def)

text \<open>
  Claim C9 asks that every session id have exactly 6 characters, all uppercase. The code
  takes the substring from 2 to 8 of the printed random number, which has fewer than 6
  characters when the base-36 expansion of the number has fewer than 6 digits: for
  \<^verbatim>\<open>Math.random() = 0.5\<close>, printed \<^verbatim>\<open>0.i\<close>, the id is the single character \<open>I\<close>.
  By \<open>generateSessionId_length\<close> an id never has more than 6 characters.
\<close>

theorem generateSessionId_short:
  "generateSessionId ''0.i'' = ''I'' \<and> length (generateSessionId ''0.i'') = 1"
  by (simp add: generateSessionId_def toUpperCase_def substring_def)

subsection \<open>Joining again\<close>

lemma store_participants_same: "st\<lparr>participants_coll := m\<rparr> = st \<longleftrightarrow> m = participants_coll st"
  by (cases st) auto

text \<open>
  Claim C8, as the claim states it, fails: \<open>sam\<close>, who has submitted the preference
  \<open>sushi\<close>, joins again under the same name and the record's preference is empty
  afterwards.
\<close>

theorem joinSession_rejoin_counterexample:
  "participants_coll open_store (participantDocId (Some ''K3X9QA'') ''sam'') = Some sam_part
   \<and> name_p sam_part = ''Sam'' \<and> preference sam_part = ''sushi''
   \<and> (case joinSession ''Sam'' (Some ''K3X9QA'') (open_store, guest_client\<lparr>view := JoinV\<rparr>) of
        Inl e \<Rightarrow> False
      | Inr (st', cl') \<Rightarrow>
          map_option preference (participants_coll st' (participantDocId (Some ''K3X9QA'') ''sam''))
            = Some [])"
  by (simp add: joinSession_def open_store_def guest_client_def sam_part_def alex_part_def
      participantDocId_def template_def)

text \<open>
  Claim C8, amended. \<^verbatim>\<open>joinSession\<close> on an existing record with the same name never
  fails and rewrites the record with an empty preference and \<^verbatim>\<open>isHost\<close> false, touching
  nothing else in the store; it leaves the store unchanged exactly when the record already
  had an empty preference and \<^verbatim>\<open>isHost\<close> false.
\<close>

theorem joinSession_overwrites:
  assumes "user cl = Some u"
    and "participants_coll st (participantDocId sid u) = Some p"
    and "sessionId_p p = sid" and "userId_p p = u" and "name_p p = nm"
  shows "\<exists>st'. joinSession nm sid (st, cl) = Inr (st', cl\<lparr>view := LobbyV\<rparr>)
            \<and> st' = st\<lparr>participants_coll := (participants_coll st)(participantDocId sid u \<mapsto>
                      p\<lparr>preference := [], isHost := False\<rparr>)\<rparr>
            \<and> (st' = st \<longleftrightarrow> preference p = [] \<and> \<not> isHost p)"
proof -
  have written: "\<lparr>sessionId_p = sid, userId_p = u, name_p = nm, preference = [], isHost = False\<rparr>
      = p\<lparr>preference := [], isHost := False\<rparr>"
    using assms(3-5) by (cases p) simp
  have same: "p\<lparr>preference := [], isHost := False\<rparr> = p \<longleftrightarrow> preference p = [] \<and> \<not> isHost p"
    by (cases p) auto
  have "(participants_coll st)(participantDocId sid u \<mapsto> p\<lparr>preference := [], isHost := False\<rparr>)
        = participants_coll st \<longleftrightarrow> preference p = [] \<and> \<not> isHost p"
    using assms(2) same by (metis fun_upd_same fun_upd_triv option.inject)
  then show ?thesis
    using assms(1) written by (simp add: joinSession_def store_participants_same)
qed

theorem joinSession_overwrites_witness:
  "user guest_client = Some ''sam''
   \<and> participants_coll open_store (participantDocId (Some ''K3X9QA'') ''sam'') = Some sam_part
   \<and> sessionId_p sam_part = Some ''K3X9QA'' \<and> userId_p sam_part = ''sam''
   \<and> name_p sam_part = ''Sam''
   \<and> (\<exists>st'. joinSession ''Sam'' (Some ''K3X9QA'') (open_store, guest_client)
              = Inr (st', guest_client\<lparr>view := LobbyV\<rparr>)
          \<and> st' = open_store\<lparr>participants_coll := (participants_coll open_store)
                     (participantDocId (Some ''K3X9QA'') ''sam'' \<mapsto>
                      sam_part\<lparr>preference := [], isHost := False\<rparr>)\<rparr>
          \<and> st' \<noteq> open_store)"
proof -
  have h: "user guest_client = Some ''sam''"
    "participants_coll open_store (participantDocId (Some ''K3X9QA'') ''sam'') = Some sam_part"
    "sessionId_p sam_part = Some ''K3X9QA''" "userId_p sam_part = ''sam''"
    "name_p sam_part = ''Sam''"
    by (simp_all add: guest_client_def open_store_def sam_part_def participantDocId_def
        template_def)
  have "preference sam_part \<noteq> []" by (simp add: sam_part_def)
  with joinSession_overwrites [OF h] h show ?thesis by auto
qed

subsection \<open>Who may start the vote\<close>

lemma joinSession_sessions:
  "joinSession nm sid (st, cl) = Inr (st', cl') \<Longrightarrow> sessions_coll st' = sessions_coll st"
  by (auto simp: joinSession_def split: option.splits)

lemma submitPreference_sessions:
  "submitPreference t (st, cl) = Inr (st', cl') \<Longrightarrow> sessions_coll st' = sessions_coll st"
  by (auto simp: submitPreference_def Let_def split: option.splits if_splits)

lemma onVote_sessions:
  "onVote rid (st, cl) = Inr (st', cl') \<Longrightarrow> sessions_coll st' = sessions_coll st"
  by (auto simp: onVote_def Let_def split: option.splits)

lemma resetApp_store: "resetApp (st, cl) = Inr (st', cl') \<Longrightarrow> st' = st"
  by (auto simp: resetApp_def)

text \<open>
  Claim C4, as the claim states it, fails: \<^verbatim>\<open>startVoting\<close> has no host check. Called
  in the browser of \<open>sam\<close>, who is not the host \<open>alex\<close>, it does not fail and the session
  is in status voting afterwards.
\<close>

theorem startVoting_nonhost_counterexample:
  "user guest_client = Some ''sam'' \<and> hostId open_session = ''alex''
   \<and> sessions_coll open_store ''K3X9QA'' = Some open_session
   \<and> (case startVoting sample_externals (open_store, guest_client) of
        Inl e \<Rightarrow> False
      | Inr (st', cl') \<Rightarrow> map_option status (sessions_coll st' ''K3X9QA'') = Some Voting)"
  by (simp add: startVoting_def updateDoc_session_def guest_client_def open_store_def
      open_session_def sample_externals_def)

text \<open>
  Claim C4, amended. The host restriction is in the Lobby component, which renders the
  start control only when \<^verbatim>\<open>session.hostId === userId\<close>: in a browser whose user is
  not the host of the session it shows, the start event changes neither the store nor the
  React state, and no event other than the creation of a new session changes any session
  document. No \<^verbatim>\<open>NotHost\<close> error exists.
\<close>

theorem nonhost_cannot_start:
  assumes "sessionData cl = Some sd" and "\<not> isHostOf sd cl"
  shows "dispatch ext LobbyStart (st, cl) = Inr (st, cl)
     \<and> (\<forall>ev st' cl'. (\<forall>nm loc. ev \<noteq> LandingSubmit nm loc) \<longrightarrow>
            dispatch ext ev (st, cl) = Inr (st', cl') \<longrightarrow> sessions_coll st' = sessions_coll st)"
proof (intro conjI allI impI)
  show "dispatch ext LobbyStart (st, cl) = Inr (st, cl)"
    using assms by (simp add: dispatch_def)
next
  fix ev st' cl'
  assume nl: "\<forall>nm loc. ev \<noteq> LandingSubmit nm loc"
    and d: "dispatch ext ev (st, cl) = Inr (st', cl')"
  show "sessions_coll st' = sessions_coll st"
  proof (cases ev)
    case (LandingSubmit nm loc) with nl show ?thesis by simp
  next
    case (JoinSubmit nm) with d show ?thesis
      by (auto simp: dispatch_def split: if_splits dest: joinSession_sessions)
  next
    case (LobbySubmit t) with d show ?thesis
      by (auto simp: dispatch_def split: if_splits dest: submitPreference_sessions)
  next
    case LobbyEdit with d show ?thesis
      by (auto simp: dispatch_def split: if_splits dest: submitPreference_sessions)
  next
    case LobbyStart with d assms show ?thesis
      by (auto simp: dispatch_def)
  next
    case (VotingCard rid) with d assms show ?thesis
      by (auto simp: dispatch_def split: if_splits dest: onVote_sessions)
  next
    case VotingEnd with d assms show ?thesis
      by (auto simp: dispatch_def)
  next
    case WinnerReset with d assms show ?thesis
      by (auto simp: dispatch_def split: if_splits dest: resetApp_store)
  qed
qed

theorem nonhost_cannot_start_witness:
  "sessionData guest_client = Some open_session \<and> \<not> isHostOf open_session guest_client
   \<and> dispatch sample_externals LobbyStart (open_store, guest_client) = Inr (open_store, guest_client)
   \<and> dispatch sample_externals VotingEnd (open_store, guest_client) = Inr (open_store, guest_client)"
proof -
  have h: "sessionData guest_client = Some open_session" "\<not> isHostOf open_session guest_client"
    by (simp_all add: guest_client_def open_session_def isHostOf_def)
  have "dispatch sample_externals VotingEnd (open_store, guest_client) = Inr (open_store, guest_client)"
    by (simp add: dispatch_def guest_client_def)
  with nonhost_cannot_start [OF h, of sample_externals open_store] h show ?thesis by simp
qed

subsection \<open>When a preference can be submitted\<close>

lemma submitPreference_writes:
  assumes "user cl = Some u" and "sessionId cl = Some sid" and "sid \<noteq> []"
  shows "\<exists>p. submitPreference t (st, cl)
             = Inr (st\<lparr>participants_coll :=
                      (participants_coll st)(participantDocId (Some sid) u \<mapsto> p)\<rparr>, cl)
           \<and> preference p = t \<and> sessionId_p p = Some sid \<and> userId_p p = u"
proof -
  let ?p = "\<lparr>sessionId_p = Some sid, userId_p = u,
     name_p = (case find (\<lambda>p. userId_p p = u) (participants cl) of
                 None \<Rightarrow> ''User''
               | Some p \<Rightarrow> if name_p p = [] then ''User'' else name_p p),
     preference = t,
     isHost = (case find (\<lambda>p. userId_p p = u) (participants cl) of
                 None \<Rightarrow> False | Some p \<Rightarrow> isHost p)\<rparr>"
  have "submitPreference t (st, cl)
      = Inr (st\<lparr>participants_coll :=
               (participants_coll st)(participantDocId (Some sid) u \<mapsto> ?p)\<rparr>, cl)"
    using assms by (simp add: submitPreference_def Let_def)
  moreover have "preference ?p = t \<and> sessionId_p ?p = Some sid \<and> userId_p ?p = u" by simp
  ultimately show ?thesis by blast
qed

text \<open>
  Claim C7, as the claim states it, fails: \<^verbatim>\<open>submitPreference\<close> has no status check.
  In the sample session, whose status is voting, the call does not fail and the host's
  stored preference changes from \<open>tacos\<close> to \<open>pizza\<close>.
\<close>

theorem submitPreference_voting_counterexample:
  "map_option status (sessions_coll sample_store ''K3X9QA'') = Some Voting
   \<and> map_option preference (participants_coll sample_store ''K3X9QA_alex'') = Some ''tacos''
   \<and> (case submitPreference ''pizza'' (sample_store, host_client) of
        Inl e \<Rightarrow> False
      | Inr (st', cl') \<Rightarrow>
          map_option preference (participants_coll st' ''K3X9QA_alex'') = Some ''pizza'')"
  by (simp add: submitPreference_def sample_store_def sample_session_def host_client_def
      alex_part_def participantDocId_def template_def)

text \<open>
  Claim C7, amended. The restriction is in the views. Once the session listener has
  delivered a document whose status is not open, the browser is no longer in the lobby
  view, so the preference form and the edit control do nothing: store and React state are
  unchanged, and no error is raised. In the lobby of an open session, submitting a text
  that is not blank, by a user who has not submitted yet, overwrites that user's
  participant record with the text and changes no other document.
\<close>

theorem preference_only_in_lobby:
  "(status d \<noteq> Open \<longrightarrow>
      dispatch ext (LobbySubmit t) (st, onSessionSnapshot (Some d) cl)
        = Inr (st, onSessionSnapshot (Some d) cl)
    \<and> dispatch ext LobbyEdit (st, onSessionSnapshot (Some d) cl)
        = Inr (st, onSessionSnapshot (Some d) cl))
   \<and> (status d = Open \<and> view cl = LobbyV \<and> user cl = Some u \<and> sessionId cl = Some sid
        \<and> sid \<noteq> [] \<and> \<not> hasSubmitted cl \<and> \<not> blank t \<longrightarrow>
      (\<exists>p. dispatch ext (LobbySubmit t) (st, onSessionSnapshot (Some d) cl)
             = Inr (st\<lparr>participants_coll :=
                      (participants_coll st)(participantDocId (Some sid) u \<mapsto> p)\<rparr>,
                    onSessionSnapshot (Some d) cl)
           \<and> preference p = t \<and> sessionId_p p = Some sid \<and> userId_p p = u))"
proof (intro conjI impI)
  assume "status d \<noteq> Open"
  then have "view (onSessionSnapshot (Some d) cl) \<noteq> LobbyV"
    by (cases "status d") (auto simp: onSessionSnapshot_def)
  then show "dispatch ext (LobbySubmit t) (st, onSessionSnapshot (Some d) cl)
        = Inr (st, onSessionSnapshot (Some d) cl)"
    and "dispatch ext LobbyEdit (st, onSessionSnapshot (Some d) cl)
        = Inr (st, onSessionSnapshot (Some d) cl)"
    by (simp_all add: dispatch_def)
next
  assume a: "status d = Open \<and> view cl = LobbyV \<and> user cl = Some u \<and> sessionId cl = Some sid
        \<and> sid \<noteq> [] \<and> \<not> hasSubmitted cl \<and> \<not> blank t"
  let ?cl = "onSessionSnapshot (Some d) cl"
  have v: "view ?cl = LobbyV" "sessionData ?cl \<noteq> None" "user ?cl = Some u"
    "sessionId ?cl = Some sid" "participants ?cl = participants cl"
    using a by (simp_all add: onSessionSnapshot_def)
  then have hs: "\<not> hasSubmitted ?cl" using a by (auto simp add: hasSubmitted_def)
  have d: "dispatch ext (LobbySubmit t) (st, ?cl) = submitPreference t (st, ?cl)"
    using v hs a by (simp add: dispatch_def)
  show "\<exists>p. dispatch ext (LobbySubmit t) (st, ?cl)
             = Inr (st\<lparr>participants_coll :=
                      (participants_coll st)(participantDocId (Some sid) u \<mapsto> p)\<rparr>, ?cl)
           \<and> preference p = t \<and> sessionId_p p = Some sid \<and> userId_p p = u"
    unfolding d using submitPreference_writes [OF v(3,4)] a by blast
qed

theorem preference_only_in_lobby_witness:
  "status sample_session \<noteq> Open
   \<and> dispatch sample_externals (LobbySubmit ''pizza'')
         (voting_store, onSessionSnapshot (Some sample_session) guest_client)
       = Inr (voting_store, onSessionSnapshot (Some sample_session) guest_client)
   \<and> dispatch sample_externals LobbyEdit
         (voting_store, onSessionSnapshot (Some sample_session) guest_client)
       = Inr (voting_store, onSessionSnapshot (Some sample_session) guest_client)
   \<and> status open_session = Open \<and> view (guest_client\<lparr>participants := [alex_part]\<rparr>) = LobbyV
   \<and> user (guest_client\<lparr>participants := [alex_part]\<rparr>) = Some ''sam''
   \<and> sessionId (guest_client\<lparr>participants := [alex_part]\<rparr>) = Some ''K3X9QA''
   \<and> ''K3X9QA'' \<noteq> [] \<and> \<not> hasSubmitted (guest_client\<lparr>participants := [alex_part]\<rparr>) \<and> \<not> blank ''pizza''
   \<and> (\<exists>p. dispatch sample_externals (LobbySubmit ''pizza'')
              (open_store, onSessionSnapshot (Some open_session) (guest_client\<lparr>participants := [alex_part]\<rparr>))
            = Inr (open_store\<lparr>participants_coll :=
                     (participants_coll open_store)(participantDocId (Some ''K3X9QA'') ''sam'' \<mapsto> p)\<rparr>,
                   onSessionSnapshot (Some open_session) (guest_client\<lparr>participants := [alex_part]\<rparr>))
          \<and> preference p = ''pizza'' \<and> sessionId_p p = Some ''K3X9QA'' \<and> userId_p p = ''sam'')"
proof -
  let ?cl = "guest_client\<lparr>participants := [alex_part]\<rparr>"
  have n: "status sample_session \<noteq> Open" by (simp add: sample_session_def)
  have o: "status open_session = Open \<and> view ?cl = LobbyV \<and> user ?cl = Some ''sam''
      \<and> sessionId ?cl = Some ''K3X9QA'' \<and> ''K3X9QA'' \<noteq> [] \<and> \<not> hasSubmitted ?cl
      \<and> \<not> blank ''pizza''"
    by (simp add: open_session_def guest_client_def hasSubmitted_def alex_part_def blank_def
        is_space_def)
  from preference_only_in_lobby [of sample_session sample_externals "''pizza''" voting_store
      guest_client] n
  have 1: "dispatch sample_externals (LobbySubmit ''pizza'')
         (voting_store, onSessionSnapshot (Some sample_session) guest_client)
       = Inr (voting_store, onSessionSnapshot (Some sample_session) guest_client)
     \<and> dispatch sample_externals LobbyEdit
         (voting_store, onSessionSnapshot (Some sample_session) guest_client)
       = Inr (voting_store, onSessionSnapshot (Some sample_session) guest_client)"
    by blast
  from preference_only_in_lobby [of open_session sample_externals "''pizza''" open_store
      ?cl "''sam''" "''K3X9QA''"] o
  have 2: "\<exists>p. dispatch sample_externals (LobbySubmit ''pizza'')
              (open_store, onSessionSnapshot (Some open_session) ?cl)
            = Inr (open_store\<lparr>participants_coll :=
                     (participants_coll open_store)(participantDocId (Some ''K3X9QA'') ''sam'' \<mapsto> p)\<rparr>,
                   onSessionSnapshot (Some open_session) ?cl)
          \<and> preference p = ''pizza'' \<and> sessionId_p p = Some ''K3X9QA'' \<and> userId_p p = ''sam''"
    by blast
  from n o 1 2 show ?thesis by blast
qed

subsection \<open>Toggling a vote\<close>

lemma sep_inj:
  assumes "CHR ''_'' \<notin> set a" and "CHR ''_'' \<notin> set a'"
    and "a @ CHR ''_'' # b = a' @ CHR ''_'' # b'"
  shows "a = a' \<and> b = b'"
proof -
  have "takeWhile (\<lambda>c. c \<noteq> CHR ''_'') (a @ CHR ''_'' # b) = a"
    using assms(1) by (auto simp add: takeWhile_tail takeWhile_eq_all_conv)
  moreover have "takeWhile (\<lambda>c. c \<noteq> CHR ''_'') (a' @ CHR ''_'' # b') = a'"
    using assms(2) by (auto simp add: takeWhile_tail takeWhile_eq_all_conv)
  ultimately have "a = a'" using assms(3) by simp
  with assms(3) show ?thesis by simp
qed

lemma voteDocId_inj:
  assumes "CHR ''_'' \<notin> set sid" "CHR ''_'' \<notin> set u" "CHR ''_'' \<notin> set sid'" "CHR ''_'' \<notin> set u'"
    and "voteDocId (Some sid) u rid = voteDocId (Some sid') u' rid'"
  shows "sid = sid' \<and> u = u' \<and> rid = rid'"
proof -
  from assms(5) have e: "sid @ CHR ''_'' # (u @ CHR ''_'' # rid) = sid' @ CHR ''_'' # (u' @ CHR ''_'' # rid')"
    by (simp add: voteDocId_def template_def)
  from sep_inj [OF assms(1) assms(3) e] have 1: "sid = sid'" and 2: "u @ CHR ''_'' # rid = u' @ CHR ''_'' # rid'"
    by simp_all
  from sep_inj [OF assms(2) assms(4) 2] 1 show ?thesis by simp
qed

lemma store_votes_same: "st\<lparr>votes_coll := votes_coll st\<rparr> = st"
  by (cases st) simp

text \<open>
  Claim C10. A toggle by user \<open>u\<close> on candidate \<open>rid\<close> never fails for a signed-in
  user and writes only the vote document whose id is built from the session, \<open>u\<close> and
  \<open>rid\<close>: every other vote document, and every session and participant document, is
  as before. Read on keys: when the session and user ids carry no underscore, the record
  of every other key (session, user, candidate) is unchanged.
\<close>

theorem onVote_frame:
  assumes "user cl = Some u"
  shows "\<exists>st'. onVote rid (st, cl) = Inr (st', cl)
     \<and> (\<forall>k. k \<noteq> voteDocId (sessionId cl) u rid \<longrightarrow> votes_coll st' k = votes_coll st k)
     \<and> sessions_coll st' = sessions_coll st \<and> participants_coll st' = participants_coll st
     \<and> (\<forall>sid sid' u' rid'. sessionId cl = Some sid \<longrightarrow>
           CHR ''_'' \<notin> set sid \<union> set u \<union> set sid' \<union> set u' \<longrightarrow> (sid', u', rid') \<noteq> (sid, u, rid) \<longrightarrow>
           votes_coll st' (voteDocId (Some sid') u' rid') = votes_coll st (voteDocId (Some sid') u' rid'))"
proof -
  obtain st' where r: "onVote rid (st, cl) = Inr (st', cl)"
    and v: "votes_coll st' = (votes_coll st)(voteDocId (sessionId cl) u rid := votes_coll st' (voteDocId (sessionId cl) u rid))"
    and s: "sessions_coll st' = sessions_coll st" and p: "participants_coll st' = participants_coll st"
    using assms by (cases "existing_vote cl u rid") (auto simp: onVote_def Let_def)
  have frame: "votes_coll st' k = votes_coll st k" if "k \<noteq> voteDocId (sessionId cl) u rid" for k
    using that v by (metis fun_upd_other)
  have "votes_coll st' (voteDocId (Some sid') u' rid') = votes_coll st (voteDocId (Some sid') u' rid')"
    if "sessionId cl = Some sid" "CHR ''_'' \<notin> set sid \<union> set u \<union> set sid' \<union> set u'" "(sid', u', rid') \<noteq> (sid, u, rid)"
    for sid sid' u' rid'
  proof (rule frame)
    show "voteDocId (Some sid') u' rid' \<noteq> voteDocId (sessionId cl) u rid"
      using that voteDocId_inj [of sid' u' sid u rid' rid] by auto
  qed
  with r frame s p show ?thesis by blast
qed

lemma snapshot_mem:
  assumes "votes_snapshot st sid vs"
  shows "v \<in> set vs \<longleftrightarrow> (\<exists>k. votes_coll st k = Some v \<and> sessionId_v v = Some sid)"
proof -
  from assms obtain ks where ks: "set ks = {k. \<exists>v. votes_coll st k = Some v \<and> sessionId_v v = Some sid}"
    and m: "map (votes_coll st) ks = map Some vs"
    by (auto simp: votes_snapshot_def)
  have "v \<in> set vs \<longleftrightarrow> Some v \<in> set (map Some vs)" by auto
  also have "\<dots> \<longleftrightarrow> Some v \<in> votes_coll st ` set ks" using m by (metis set_map)
  also have "\<dots> \<longleftrightarrow> (\<exists>k. votes_coll st k = Some v \<and> sessionId_v v = Some sid)"
    unfolding ks by force
  finally show ?thesis .
qed

text \<open>
  Claim C6. Let the user hold no vote for the candidate: the document of the key
  (session, user, candidate) is absent. With the vote listener delivering the store's
  votes before each call, and nobody else writing in between, the first toggle finds no
  existing vote and adds the record of that key, the second finds it and removes it, and
  the store is then equal to the store before the first toggle; in particular it has no
  record for the key.
\<close>

theorem toggle_twice:
  assumes wf: "stored_under_own_id st"
    and u: "user cl = Some u" and sid: "sessionId cl = Some sid"
    and snap: "votes_snapshot st sid (votes cl)"
    and free: "votes_coll st (voteDocId (Some sid) u rid) = None"
  shows "existing_vote cl u rid = None
     \<and> (\<exists>st1. onVote rid (st, cl) = Inr (st1, cl)
          \<and> votes_coll st1 (voteDocId (Some sid) u rid)
              = Some \<lparr>sessionId_v = Some sid, userId_v = u, restaurantId = rid\<rparr>
          \<and> (\<forall>vs1. votes_snapshot st1 sid vs1 \<longrightarrow>
                existing_vote (onVotesSnapshot vs1 cl) u rid \<noteq> None
              \<and> onVote rid (st1, onVotesSnapshot vs1 cl) = Inr (st, onVotesSnapshot vs1 cl)))
     \<and> votes_coll st (voteDocId (Some sid) u rid) = None"
proof -
  let ?k = "voteDocId (Some sid) u rid"
  let ?v = "\<lparr>sessionId_v = Some sid, userId_v = u, restaurantId = rid\<rparr>"
  have none: "existing_vote cl u rid = None"
  proof -
    have "\<not> (userId_v v = u \<and> restaurantId v = rid)" if "v \<in> set (votes cl)" for v
    proof
      assume a: "userId_v v = u \<and> restaurantId v = rid"
      from that snapshot_mem [OF snap] obtain k where k: "votes_coll st k = Some v" and s: "sessionId_v v = Some sid"
        by blast
      from wf k have "k = voteDocId (sessionId_v v) (userId_v v) (restaurantId v)"
        by (simp add: stored_under_own_id_def)
      with a s have "k = ?k" by simp
      with k free show False by simp
    qed
    then show ?thesis by (auto simp: existing_vote_def find_None_iff)
  qed
  let ?st1 = "st\<lparr>votes_coll := (votes_coll st)(?k \<mapsto> ?v)\<rparr>"
  have first: "onVote rid (st, cl) = Inr (?st1, cl)"
    using u sid none by (simp add: onVote_def Let_def)
  have second: "existing_vote (onVotesSnapshot vs1 cl) u rid \<noteq> None
      \<and> onVote rid (?st1, onVotesSnapshot vs1 cl) = Inr (st, onVotesSnapshot vs1 cl)"
    if s1: "votes_snapshot ?st1 sid vs1" for vs1
  proof -
    have "?v \<in> set vs1" using snapshot_mem [OF s1, of ?v] by auto
    then have "\<exists>x\<in>set vs1. userId_v x = u \<and> restaurantId x = rid"
      by (rule bexI [rotated]) simp
    then have ex: "existing_vote (onVotesSnapshot vs1 cl) u rid \<noteq> None"
      unfolding existing_vote_def onVotesSnapshot_def find_None_iff by auto
    have restored: "?st1\<lparr>votes_coll := (votes_coll ?st1)(?k := None)\<rparr> = st"
    proof -
      have "(votes_coll st)(?k := None) = votes_coll st" using free by (metis fun_upd_triv)
      then show ?thesis by (simp add: store_votes_same)
    qed
    from ex obtain w where w: "existing_vote (onVotesSnapshot vs1 cl) u rid = Some w" by auto
    have "onVote rid (?st1, onVotesSnapshot vs1 cl) = Inr (?st1\<lparr>votes_coll := (votes_coll ?st1)(?k := None)\<rparr>, onVotesSnapshot vs1 cl)"
      using u sid w by (simp add: onVote_def Let_def onVotesSnapshot_def)
    with restored ex show ?thesis by simp
  qed
  from none first second free show ?thesis by auto
qed

lemma onVote_keeps_own_id:
  assumes "stored_under_own_id st" and "onVote rid (st, cl) = Inr (st', cl')"
  shows "stored_under_own_id st'"
  using assms
  by (auto simp: onVote_def Let_def stored_under_own_id_def split: option.splits if_splits)


lemma votes_snapshot_voting: "votes_snapshot voting_store ''K3X9QA'' [sam_vote]"
  unfolding votes_snapshot_def
  by (rule exI [of _ "[''K3X9QA_sam_r2'']"])
     (auto simp: voting_store_def sam_vote_def split: if_splits)

lemma stored_under_own_id_voting: "stored_under_own_id voting_store"
  by (auto simp: stored_under_own_id_def voting_store_def sam_vote_def voteDocId_def
      template_def split: if_splits)

theorem onVote_frame_witness:
  "user voting_client = Some ''alex''
   \<and> (\<exists>st'. onVote ''r1'' (voting_store, voting_client) = Inr (st', voting_client)
         \<and> votes_coll st' ''K3X9QA_sam_r2'' = Some sam_vote
         \<and> sessions_coll st' = sessions_coll voting_store
         \<and> participants_coll st' = participants_coll voting_store)"
proof -
  have h: "user voting_client = Some ''alex''" by (simp add: voting_client_def)
  have k: "''K3X9QA_sam_r2'' \<noteq> voteDocId (sessionId voting_client) ''alex'' ''r1''"
    by (simp add: voting_client_def voteDocId_def template_def)
  have v: "votes_coll voting_store ''K3X9QA_sam_r2'' = Some sam_vote"
    by (simp add: voting_store_def)
  from onVote_frame [OF h, of "''r1''" voting_store] k v h show ?thesis by auto
qed

theorem toggle_twice_witness:
  "stored_under_own_id voting_store \<and> user voting_client = Some ''alex''
   \<and> sessionId voting_client = Some ''K3X9QA''
   \<and> votes_snapshot voting_store ''K3X9QA'' (votes voting_client)
   \<and> votes_coll voting_store (voteDocId (Some ''K3X9QA'') ''alex'' ''r1'') = None
   \<and> existing_vote voting_client ''alex'' ''r1'' = None
   \<and> (\<exists>st1. onVote ''r1'' (voting_store, voting_client) = Inr (st1, voting_client)
         \<and> votes_coll st1 (voteDocId (Some ''K3X9QA'') ''alex'' ''r1'') = Some alex_vote
         \<and> onVote ''r1'' (st1, onVotesSnapshot [sam_vote, alex_vote] voting_client)
             = Inr (voting_store, onVotesSnapshot [sam_vote, alex_vote] voting_client))"
proof -
  have h: "stored_under_own_id voting_store" "user voting_client = Some ''alex''"
    "sessionId voting_client = Some ''K3X9QA''"
    "votes_snapshot voting_store ''K3X9QA'' (votes voting_client)"
    "votes_coll voting_store (voteDocId (Some ''K3X9QA'') ''alex'' ''r1'') = None"
    using stored_under_own_id_voting votes_snapshot_voting
    by (simp_all add: voting_client_def voting_store_def voteDocId_def template_def)
  from toggle_twice [OF h] obtain st1 where
    n: "existing_vote voting_client ''alex'' ''r1'' = None"
    and f: "onVote ''r1'' (voting_store, voting_client) = Inr (st1, voting_client)"
    and a: "votes_coll st1 (voteDocId (Some ''K3X9QA'') ''alex'' ''r1'')
              = Some \<lparr>sessionId_v = Some ''K3X9QA'', userId_v = ''alex'', restaurantId = ''r1''\<rparr>"
    and s: "\<And>vs1. votes_snapshot st1 ''K3X9QA'' vs1 \<Longrightarrow>
              onVote ''r1'' (st1, onVotesSnapshot vs1 voting_client)
                = Inr (voting_store, onVotesSnapshot vs1 voting_client)"
    by blast
  have "st1 = voting_store\<lparr>votes_coll := (votes_coll voting_store)(''K3X9QA_alex_r1'' \<mapsto> alex_vote)\<rparr>"
    using f by (simp add: onVote_def existing_vote_def voting_client_def sam_vote_def
        alex_vote_def voteDocId_def template_def)
  then have "votes_snapshot st1 ''K3X9QA'' [sam_vote, alex_vote]"
    unfolding votes_snapshot_def
    by (intro exI [of _ "[''K3X9QA_sam_r2'', ''K3X9QA_alex_r1'']"])
       (auto simp: voting_store_def sam_vote_def alex_vote_def split: if_splits)
  from s [OF this] h n f a show ?thesis by (auto simp: alex_vote_def)
qed

subsection \<open>Runs: what every write keeps\<close>

lemma winner_of_mem: "winner_of cs w = Some c \<Longrightarrow> c \<in> set cs"
  by (auto simp: winner_of_def find_Some_iff split: option.splits list.splits)

lemma createSession_sessions:
  assumes "createSession nm loc ext (st, cl) = Inr (st', cl')"
  shows "st' = st \<or>
     (\<exists>u. sessions_coll st' = (sessions_coll st)(generateSessionId (random36 ext) \<mapsto>
          \<lparr>hostId = u, location = loc, status = Open, createdAt = serverTimestamp ext,
           candidates = [], winner = None\<rparr>))"
  using assms by (auto simp: createSession_def Let_def split: option.splits if_splits)

lemma startVoting_sessions:
  assumes "startVoting ext (st, cl) = Inr (st', cl')"
  shows "st' = st \<or>
     (\<exists>sid d cs. sessionId cl = Some sid \<and> sessionData cl \<noteq> None
        \<and> sessions_coll st sid = Some d
        \<and> cs = (case yelpResult ext of None \<Rightarrow> take 5 (shuffled ext)
                 | Some ys \<Rightarrow> if ys = [] then take 5 (shuffled ext) else ys)
        \<and> sessions_coll st' = (sessions_coll st)(sid \<mapsto> d\<lparr>status := Voting, candidates := cs\<rparr>))"
  using assms
  by (auto simp: startVoting_def Let_def updateDoc_session_def split: option.splits if_splits)

lemma endVoting_sessions:
  assumes "endVoting (st, cl) = Inr (st', cl')"
  shows "st' = st \<or>
     (\<exists>sid sd d w c. sessionId cl = Some sid \<and> sessionData cl = Some sd
        \<and> sessions_coll st sid = Some d
        \<and> winnerId_of (candidates sd) (votes cl) = Inr w \<and> winner_of (candidates sd) w = Some c
        \<and> sessions_coll st' = (sessions_coll st)(sid \<mapsto> d\<lparr>status := Finished, winner := Some c\<rparr>))"
  using assms
  by (auto simp: endVoting_def updateDoc_session_def split: option.splits sum.splits if_splits)

lemma selected_nonempty:
  assumes "mset (shuffled ext) = mset MOCK_RESTAURANTS"
  shows "(case yelpResult ext of None \<Rightarrow> take 5 (shuffled ext)
          | Some ys \<Rightarrow> if ys = [] then take 5 (shuffled ext) else ys) \<noteq> []"
proof -
  have "length (shuffled ext) = length MOCK_RESTAURANTS"
    using assms by (metis size_mset)
  then have "shuffled ext \<noteq> []" by (auto simp: MOCK_RESTAURANTS_def)
  then show ?thesis by (auto split: option.splits)
qed


lemma perform_sessions:
  assumes "perform ext c (st, cl) = Inr (st', cl')"
  shows "sessions_coll st' = sessions_coll st
     \<or> (\<exists>nm loc u. c = CreateSession nm loc
          \<and> sessions_coll st' = (sessions_coll st)(generateSessionId (random36 ext) \<mapsto>
               \<lparr>hostId = u, location = loc, status = Open, createdAt = serverTimestamp ext,
                candidates = [], winner = None\<rparr>))
     \<or> (\<exists>sid d cs. c = StartVoting \<and> sessionId cl = Some sid \<and> sessions_coll st sid = Some d
          \<and> cs = (case yelpResult ext of None \<Rightarrow> take 5 (shuffled ext)
                   | Some ys \<Rightarrow> if ys = [] then take 5 (shuffled ext) else ys)
          \<and> sessions_coll st' = (sessions_coll st)(sid \<mapsto> d\<lparr>status := Voting, candidates := cs\<rparr>))
     \<or> (\<exists>sid sd d w x. c = EndVoting \<and> sessionId cl = Some sid \<and> sessionData cl = Some sd
          \<and> sessions_coll st sid = Some d \<and> winner_of (candidates sd) w = Some x
          \<and> sessions_coll st' = (sessions_coll st)(sid \<mapsto> d\<lparr>status := Finished, winner := Some x\<rparr>))"
proof (cases c)
  case (CreateSession nm loc)
  with assms have "createSession nm loc ext (st, cl) = Inr (st', cl')" by (simp add: perform_def)
  from createSession_sessions [OF this] CreateSession show ?thesis by auto
next
  case (JoinSession nm sid)
  with assms show ?thesis by (auto simp: perform_def dest: joinSession_sessions)
next
  case (SubmitPreference t)
  with assms show ?thesis by (auto simp: perform_def dest: submitPreference_sessions)
next
  case StartVoting
  with assms have "startVoting ext (st, cl) = Inr (st', cl')" by (simp add: perform_def)
  from startVoting_sessions [OF this] StartVoting show ?thesis by auto
next
  case EndVoting
  with assms have "endVoting (st, cl) = Inr (st', cl')" by (simp add: perform_def)
  from endVoting_sessions [OF this] show ?thesis
  proof
    assume "st' = st" then show ?thesis by simp
  next
    assume "\<exists>sid sd d w c. sessionId cl = Some sid \<and> sessionData cl = Some sd
        \<and> sessions_coll st sid = Some d
        \<and> winnerId_of (candidates sd) (votes cl) = Inr w \<and> winner_of (candidates sd) w = Some c
        \<and> sessions_coll st' = (sessions_coll st)(sid \<mapsto> d\<lparr>status := Finished, winner := Some c\<rparr>)"
    then obtain sid sd d w x where "sessionId cl = Some sid" "sessionData cl = Some sd"
      "sessions_coll st sid = Some d" "winner_of (candidates sd) w = Some x"
      "sessions_coll st' = (sessions_coll st)(sid \<mapsto> d\<lparr>status := Finished, winner := Some x\<rparr>)"
      by blast
    with EndVoting show ?thesis by blast
  qed
next
  case (OnVote rid)
  with assms show ?thesis by (auto simp: perform_def dest: onVote_sessions)
next
  case ResetApp
  with assms show ?thesis by (auto simp: perform_def dest: resetApp_store)
qed

lemma hold_same:
  assumes "\<forall>sid d. sessions_coll st sid = Some d \<longrightarrow> d \<in> held sid"
    and "sessions_coll st' = sessions_coll st"
  shows "hold st' held = held"
proof
  fix sid
  show "hold st' held sid = held sid"
    using assms by (cases "sessions_coll st sid") (auto simp: hold_def)
qed

lemma hold_update:
  assumes "\<forall>sid d. sessions_coll st sid = Some d \<longrightarrow> d \<in> held sid"
    and "sessions_coll st' = (sessions_coll st)(k \<mapsto> x)"
  shows "hold st' held = held(k := insert x (held k))"
proof
  fix sid
  show "hold st' held sid = (held(k := insert x (held k))) sid"
    using assms by (cases "sessions_coll st sid") (auto simp: hold_def)
qed

lemma step_sound_moves:
  assumes s: "sound (st, held)" and c: "call_step (st, held) (st', held')"
  shows "sound (st', held')
     \<and> (\<forall>sid d. sessions_coll st sid = Some d \<longrightarrow>
           (\<exists>d'. sessions_coll st' sid = Some d' \<and> moves (status d) (status d')))"
proof -
  from c obtain cl ext c cl' where it: "in_touch held cl" and fr0: "fresh_id st ext c"
    and ms: "mset (shuffled ext) = mset MOCK_RESTAURANTS"
    and pf: "perform ext c (st, cl) = Inr (st', cl')" and hd: "held' = hold st' held"
    by (auto simp: call_step.simps)
  from s have i1: "\<forall>sid d. sessions_coll st sid = Some d \<longrightarrow> d \<in> held sid"
    and i2: "\<forall>sid h. h \<in> held sid \<longrightarrow> sessions_coll st sid \<noteq> None"
    and i3: "\<forall>sid h d. h \<in> held sid \<longrightarrow> candidates h \<noteq> [] \<longrightarrow> sessions_coll st sid = Some d \<longrightarrow>
            status d \<noteq> Open"
    and i4: "\<forall>sid d. sessions_coll st sid = Some d \<longrightarrow>
            (status d \<noteq> Open \<longrightarrow> candidates d \<noteq> [])
          \<and> (status d = Finished \<longrightarrow>
                (\<exists>w h. winner d = Some w \<and> h \<in> held sid \<and> w \<in> set (candidates h)))"
    by (simp_all add: sound_def)
  from perform_sessions [OF pf] show ?thesis
  proof (elim disjE exE conjE)
    assume same: "sessions_coll st' = sessions_coll st"
    with hold_same [OF i1 same] hd s show ?thesis
      by (auto simp: sound_def moves_def)
  next
    fix nm loc u
    assume cr: "c = CreateSession nm loc"
      and up: "sessions_coll st' = (sessions_coll st)(generateSessionId (random36 ext) \<mapsto>
               \<lparr>hostId = u, location = loc, status = Open, createdAt = serverTimestamp ext,
                candidates = [], winner = None\<rparr>)"
    let ?n = "generateSessionId (random36 ext)"
    let ?x = "\<lparr>hostId = u, location = loc, status = Open, createdAt = serverTimestamp ext,
                candidates = [], winner = None\<rparr>"
    from fr0 cr have fr: "sessions_coll st ?n = None" by (auto simp: fresh_id_def)
    with i2 have e: "held ?n = {}" by blast
    have h': "held' = held(?n := insert ?x (held ?n))"
      unfolding hd by (rule hold_update [OF i1 up])
    have "sound (st', held')"
      unfolding sound_def h' using i1 i2 i3 i4 up fr e
      by (auto split: if_splits)
    moreover have "\<forall>sid d. sessions_coll st sid = Some d \<longrightarrow>
           (\<exists>d'. sessions_coll st' sid = Some d' \<and> moves (status d) (status d'))"
      using up fr by (auto simp: moves_def)
    ultimately show ?thesis by blast
  next
    fix sid d cs
    assume sv: "c = StartVoting" and d: "sessions_coll st sid = Some d"
      and cs: "cs = (case yelpResult ext of None \<Rightarrow> take 5 (shuffled ext)
                   | Some ys \<Rightarrow> if ys = [] then take 5 (shuffled ext) else ys)"
      and up: "sessions_coll st' = (sessions_coll st)(sid \<mapsto> d\<lparr>status := Voting, candidates := cs\<rparr>)"
    from selected_nonempty [OF ms] cs have ne: "cs \<noteq> []" by simp
    have h': "held' = held(sid := insert (d\<lparr>status := Voting, candidates := cs\<rparr>) (held sid))"
      unfolding hd by (rule hold_update [OF i1 up])
    have "sound (st', held')"
      unfolding sound_def h' using i1 i2 i3 i4 up d ne
      by (auto split: if_splits)
    moreover have "\<forall>k e. sessions_coll st k = Some e \<longrightarrow>
           (\<exists>d'. sessions_coll st' k = Some d' \<and> moves (status e) (status d'))"
      using up by (auto simp: moves_def)
    ultimately show ?thesis by blast
  next
    fix sid sd d w x
    assume ev: "c = EndVoting" and sidc: "sessionId cl = Some sid" and sdc: "sessionData cl = Some sd"
      and d: "sessions_coll st sid = Some d" and wo: "winner_of (candidates sd) w = Some x"
      and up: "sessions_coll st' = (sessions_coll st)(sid \<mapsto> d\<lparr>status := Finished, winner := Some x\<rparr>)"
    from winner_of_mem [OF wo] have xm: "x \<in> set (candidates sd)" .
    then have "candidates sd \<noteq> []" by auto
    with it sidc sdc obtain h where h: "h \<in> held sid" "candidates h = candidates sd"
      by (auto simp: in_touch_def)
    with i3 d \<open>candidates sd \<noteq> []\<close> have no: "status d \<noteq> Open" by metis
    with i4 d have cne: "candidates d \<noteq> []" by blast
    have h': "held' = held(sid := insert (d\<lparr>status := Finished, winner := Some x\<rparr>) (held sid))"
      unfolding hd by (rule hold_update [OF i1 up])
    have fin: "\<exists>w' h'. winner (d\<lparr>status := Finished, winner := Some x\<rparr>) = Some w'
        \<and> h' \<in> insert (d\<lparr>status := Finished, winner := Some x\<rparr>) (held sid)
        \<and> w' \<in> set (candidates h')"
      using h xm by auto
    have "sound (st', held')"
      unfolding sound_def h' using i1 i2 i3 i4 up d no cne fin
      by (auto split: if_splits)
    moreover have "\<forall>k e. sessions_coll st k = Some e \<longrightarrow>
           (\<exists>d'. sessions_coll st' k = Some d' \<and> moves (status e) (status d'))"
      using up d no by (auto simp: moves_def)
    ultimately show ?thesis by blast
  qed
qed

lemma sound_start: "sound (empty_store, \<lambda>sid. {})"
  by (simp add: sound_def empty_store_def)

lemma steps_sound:
  assumes "call_step\<^sup>*\<^sup>* s s'" and "sound s"
  shows "sound s'"
  using assms
proof (induction rule: rtranclp_induct)
  case base
  then show ?case .
next
  case (step y z)
  then have "sound y" by simp
  with step.hyps(2) show ?case
    by (cases y; cases z) (auto dest: step_sound_moves)
qed

lemma run_sound: "run s \<Longrightarrow> sound s"
  unfolding run_def by (rule steps_sound [OF _ sound_start])

lemma moves_not_open: "moves p q \<Longrightarrow> p \<noteq> Open \<Longrightarrow> q \<noteq> Open"
  by (auto simp: moves_def)

lemma steps_not_open:
  assumes "call_step\<^sup>*\<^sup>* s s'" and "sound s" and "sessions_coll (fst s) sid = Some d"
  shows "\<exists>d'. sessions_coll (fst s') sid = Some d' \<and> (status d \<noteq> Open \<longrightarrow> status d' \<noteq> Open)"
  using assms
proof (induction rule: rtranclp_induct)
  case base
  then show ?case by simp
next
  case (step y z)
  then obtain dy where dy: "sessions_coll (fst y) sid = Some dy"
    "status d \<noteq> Open \<longrightarrow> status dy \<noteq> Open" by blast
  from steps_sound [OF step.hyps(1) step.prems(1)] have sy: "sound y" .
  obtain sty hy stz hz where yz: "y = (sty, hy)" "z = (stz, hz)" by (cases y; cases z) auto
  from step_sound_moves [of sty hy stz hz] sy step.hyps(2) dy(1) yz
  obtain dz where "sessions_coll stz sid = Some dz" "moves (status dy) (status dz)" by auto
  with dy(2) yz show ?case by (auto dest: moves_not_open)
qed

subsection \<open>The sample runs\<close>

lemma created_step:
  "perform sample_externals (CreateSession ''Alex'' ''Atlanta, GA'') (empty_store, landing_client)
     = Inr (created_store, landing_client\<lparr>sessionId := Some ''K3X9QA'', view := LobbyV\<rparr>)"
  by (simp add: perform_def createSession_def Let_def generateSessionId_def substring_def toUpperCase_def
      sample_externals_def empty_store_def landing_client_def created_store_def open_session_def
      alex_part_def participantDocId_def template_def)

lemma started_step:
  "perform sample_externals StartVoting (created_store, lobby_client)
     = Inr (started_store, lobby_client\<lparr>loadingMsg := ''Consulting the Yelp gods...'',
              view := LoadingV, usingMock := True\<rparr>)"
  by (simp add: perform_def startVoting_def updateDoc_session_def sample_externals_def
      created_store_def lobby_client_def started_store_def open_session_def sample_session_def)

lemma finished_step:
  "perform sample_externals EndVoting (started_store, host_client)
     = Inr (finished_store, host_client)"
  by (simp add: perform_def endVoting_def winnerId_of_def first_id_def winner_of_def
      updateDoc_session_def started_store_def host_client_def finished_store_def
      sample_session_def)

lemma sample_shuffle: "mset (shuffled sample_externals) = mset MOCK_RESTAURANTS"
  by (simp add: sample_externals_def MOCK_RESTAURANTS_def)


lemma run_created: "run (created_store, created_held)"
proof -
  have "call_step (empty_store, \<lambda>sid. {}) (created_store, hold created_store (\<lambda>sid. {}))"
    by (rule call_step.intros [OF _ _ sample_shuffle created_step])
       (simp_all add: in_touch_def landing_client_def fresh_id_def empty_store_def)
  then show ?thesis by (simp add: run_def created_held_def)
qed

lemma step_started: "call_step (created_store, created_held) (started_store, started_held)"
  unfolding started_held_def
  by (rule call_step.intros [OF _ _ sample_shuffle started_step])
     (simp_all add: in_touch_def lobby_client_def open_session_def fresh_id_def)

lemma step_finished: "call_step (started_store, started_held) (finished_store, finished_held)"
  unfolding finished_held_def
  by (rule call_step.intros [OF _ _ sample_shuffle finished_step])
     (simp_all add: in_touch_def host_client_def fresh_id_def started_held_def hold_def
        started_store_def)

lemma run_finished: "run (finished_store, finished_held)"
  using run_created step_started step_finished unfolding run_def by auto

lemma restarted_step:
  "perform yelp_externals StartVoting (started_store, lobby_client)
     = Inr (restarted_store, lobby_client\<lparr>loadingMsg := ''Consulting the Yelp gods...'',
              view := LoadingV\<rparr>)"
  by (simp add: perform_def startVoting_def updateDoc_session_def yelp_externals_def
      lobby_client_def started_store_def restarted_store_def sample_session_def)

lemma crossed_step:
  "perform yelp_externals EndVoting (restarted_store, host_client)
     = Inr (crossed_store, host_client)"
  by (simp add: perform_def endVoting_def winnerId_of_def first_id_def winner_of_def
      updateDoc_session_def restarted_store_def started_store_def host_client_def
      crossed_store_def sample_session_def)

lemma yelp_shuffle: "mset (shuffled yelp_externals) = mset MOCK_RESTAURANTS"
  by (simp add: yelp_externals_def MOCK_RESTAURANTS_def)

lemma step_restarted: "call_step (started_store, started_held) (restarted_store, restarted_held)"
  unfolding restarted_held_def
  by (rule call_step.intros [OF _ _ yelp_shuffle restarted_step])
     (simp_all add: in_touch_def lobby_client_def open_session_def fresh_id_def)

lemma step_crossed: "call_step (restarted_store, restarted_held) (crossed_store, crossed_held)"
  unfolding crossed_held_def
  by (rule call_step.intros [OF _ _ yelp_shuffle crossed_step])
     (simp_all add: in_touch_def host_client_def fresh_id_def restarted_held_def
        started_held_def hold_def started_store_def)

lemma run_started: "run (started_store, started_held)"
  using run_created step_started unfolding run_def by auto

lemma run_crossed: "run (crossed_store, crossed_held)"
  using run_started step_restarted step_crossed unfolding run_def by auto

subsection \<open>The candidate list and the winner of a session\<close>

text \<open>
  Claim C5, as the claim states it, fails in its second half. The host has the session
  open in two tabs; the second tab's start arrives after the first tab's and replaces the
  candidate list; the first tab, which still holds the list of its own start, ends the
  vote. The session is finished and its winner \<open>r3\<close> is not in its candidate list.
\<close>

theorem stale_winner_counterexample:
  "run (crossed_store, crossed_held)
   \<and> map_option status (sessions_coll crossed_store ''K3X9QA'') = Some Finished
   \<and> map_option winner (sessions_coll crossed_store ''K3X9QA'') = Some (Some r3)
   \<and> map_option candidates (sessions_coll crossed_store ''K3X9QA'') = Some [y1]
   \<and> r3 \<notin> set [y1]"
  using run_crossed by (simp add: crossed_store_def r3_def y1_def)

text \<open>
  Claim C5, amended. In every run of the actions, with session ids fresh at creation and
  every browser holding, however stale, a candidate list its session holds or has held,
  a session document in status voting or finished has a candidate list that is not
  empty, and one in status finished has a winner that is an element of a candidate list
  the session holds or has held. The winner is an element of the stored candidate list
  when the session has held no other candidate list that is not empty, that is, when the
  vote was started once.
\<close>

theorem winner_from_held_list:
  assumes "run (st, held)" and "sessions_coll st sid = Some d"
  shows "(status d = Voting \<or> status d = Finished \<longrightarrow> candidates d \<noteq> [])
     \<and> (status d = Finished \<longrightarrow>
          (\<exists>w h. winner d = Some w \<and> h \<in> held sid \<and> w \<in> set (candidates h)))
     \<and> (status d = Finished \<longrightarrow>
          (\<forall>h\<in>held sid. candidates h = [] \<or> candidates h = candidates d) \<longrightarrow>
          (\<exists>w. winner d = Some w \<and> w \<in> set (candidates d)))"
proof -
  from run_sound [OF assms(1)] assms(2)
  have ne: "status d \<noteq> Open \<longrightarrow> candidates d \<noteq> []"
    and fin: "status d = Finished \<longrightarrow>
          (\<exists>w h. winner d = Some w \<and> h \<in> held sid \<and> w \<in> set (candidates h))"
    by (auto simp: sound_def)
  have one: "\<exists>w. winner d = Some w \<and> w \<in> set (candidates d)"
    if f: "status d = Finished"
      and o: "\<forall>h\<in>held sid. candidates h = [] \<or> candidates h = candidates d"
  proof -
    from fin f obtain w h where w: "winner d = Some w" "h \<in> held sid" "w \<in> set (candidates h)"
      by blast
    from w(3) have "candidates h \<noteq> []" by auto
    with o w(2) have "candidates h = candidates d" by blast
    with w show ?thesis by auto
  qed
  from ne fin one show ?thesis by auto
qed

theorem winner_from_held_list_witness:
  "run (finished_store, finished_held)
   \<and> sessions_coll finished_store ''K3X9QA''
       = Some (sample_session\<lparr>status := Finished, winner := Some r3\<rparr>)
   \<and> status (sample_session\<lparr>status := Finished, winner := Some r3\<rparr>) = Finished
   \<and> candidates (sample_session\<lparr>status := Finished, winner := Some r3\<rparr>) \<noteq> []
   \<and> list_all (\<lambda>h. candidates h = []
                   \<or> candidates h = candidates (sample_session\<lparr>status := Finished, winner := Some r3\<rparr>))
        [open_session, sample_session, sample_session\<lparr>status := Finished, winner := Some r3\<rparr>]
   \<and> finished_held ''K3X9QA''
       = set [open_session, sample_session, sample_session\<lparr>status := Finished, winner := Some r3\<rparr>]
   \<and> (\<exists>w. winner (sample_session\<lparr>status := Finished, winner := Some r3\<rparr>) = Some w
          \<and> w \<in> set (candidates (sample_session\<lparr>status := Finished, winner := Some r3\<rparr>)))"
proof -
  let ?d = "sample_session\<lparr>status := Finished, winner := Some r3\<rparr>"
  have d: "sessions_coll finished_store ''K3X9QA'' = Some ?d"
    by (simp add: finished_store_def)
  have f: "status ?d = Finished" by simp
  have hs: "finished_held ''K3X9QA'' = set [open_session, sample_session, ?d]"
    by (auto simp: finished_held_def started_held_def created_held_def hold_def
        finished_store_def started_store_def created_store_def)
  have la: "list_all (\<lambda>h. candidates h = [] \<or> candidates h = candidates ?d)
        [open_session, sample_session, ?d]"
    by (simp add: open_session_def)
  then have o: "\<forall>h\<in>finished_held ''K3X9QA''. candidates h = [] \<or> candidates h = candidates ?d"
    unfolding hs by (simp add: list_all_iff)
  from winner_from_held_list [OF run_finished d] f o
  have "candidates ?d \<noteq> []" "\<exists>w. winner ?d = Some w \<and> w \<in> set (candidates ?d)"
    by blast+
  with run_finished d f la hs show ?thesis by blast
qed

subsection \<open>The order of the phases\<close>

text \<open>
  Claim C3, as the claim states it, fails: \<^verbatim>\<open>startVoting\<close> writes the status voting
  whatever the status was. The sample run has finished its session. A start from a tab of
  the host that is still in the lobby, or from the host's own up-to-date browser state,
  does not fail, and the status is voting afterwards, an earlier phase.
\<close>

theorem startVoting_finished_counterexample:
  "run (finished_store, finished_held)
   \<and> map_option status (sessions_coll finished_store ''K3X9QA'') = Some Finished
   \<and> (\<exists>s'. call_step (finished_store, finished_held) s'
          \<and> map_option status (sessions_coll (fst s') ''K3X9QA'') = Some Voting)
   \<and> (case startVoting sample_externals
             (finished_store, host_client\<lparr>sessionData := sessions_coll finished_store ''K3X9QA''\<rparr>) of
        Inl e \<Rightarrow> False
      | Inr (st', cl') \<Rightarrow> map_option status (sessions_coll st' ''K3X9QA'') = Some Voting)"
proof -
  have "\<exists>st' cl'. perform sample_externals StartVoting (finished_store, lobby_client) = Inr (st', cl')
          \<and> map_option status (sessions_coll st' ''K3X9QA'') = Some Voting"
    by (simp add: perform_def startVoting_def updateDoc_session_def finished_store_def
        lobby_client_def sample_externals_def)
  then obtain st' cl' where
    p: "perform sample_externals StartVoting (finished_store, lobby_client) = Inr (st', cl')"
    and v: "map_option status (sessions_coll st' ''K3X9QA'') = Some Voting" by blast
  have "call_step (finished_store, finished_held) (st', hold st' finished_held)"
    by (rule call_step.intros [OF _ _ sample_shuffle p])
       (simp_all add: in_touch_def lobby_client_def open_session_def fresh_id_def)
  with v have "\<exists>s'. call_step (finished_store, finished_held) s'
          \<and> map_option status (sessions_coll (fst s') ''K3X9QA'') = Some Voting"
    by force
  moreover have "case startVoting sample_externals
             (finished_store, host_client\<lparr>sessionData := sessions_coll finished_store ''K3X9QA''\<rparr>) of
        Inl e \<Rightarrow> False
      | Inr (st', cl') \<Rightarrow> map_option status (sessions_coll st' ''K3X9QA'') = Some Voting"
    by (simp add: startVoting_def updateDoc_session_def finished_store_def host_client_def
      sample_externals_def)
  moreover have "map_option status (sessions_coll finished_store ''K3X9QA'') = Some Finished"
    by (simp add: finished_store_def)
  ultimately show ?thesis using run_finished by blast
qed

text \<open>
  Claim C3, amended. In every run of the actions, with session ids fresh at creation and
  every browser holding, however stale, a candidate list its session holds or has held,
  no write returns a session to open and none takes it from open to finished, so voting
  is not skipped: a write leaves the status of a session as it is, sets it to voting, or
  sets it to finished when it was voting or finished. The status does not only move
  forward: \<^verbatim>\<open>startVoting\<close> has no check of the phase, and a start that arrives at a
  finished session takes it back to voting.
\<close>

theorem status_never_reopens:
  assumes "run (st, held)" and "sessions_coll st sid = Some d"
  shows "(\<forall>s'. call_step (st, held) s' \<longrightarrow>
            (\<exists>d'. sessions_coll (fst s') sid = Some d' \<and> moves (status d) (status d')))
     \<and> (\<forall>s'. call_step\<^sup>*\<^sup>* (st, held) s' \<longrightarrow>
            (\<exists>d'. sessions_coll (fst s') sid = Some d'
                 \<and> (status d \<noteq> Open \<longrightarrow> status d' \<noteq> Open)))"
proof (intro conjI allI impI)
  fix s' assume c: "call_step (st, held) s'"
  obtain st' held' where s': "s' = (st', held')" by (cases s') auto
  from step_sound_moves [OF run_sound [OF assms(1)]] c assms(2) s'
  show "\<exists>d'. sessions_coll (fst s') sid = Some d' \<and> moves (status d) (status d')" by auto
next
  fix s' assume "call_step\<^sup>*\<^sup>* (st, held) s'"
  from steps_not_open [OF this run_sound [OF assms(1)]] assms(2)
  show "\<exists>d'. sessions_coll (fst s') sid = Some d' \<and> (status d \<noteq> Open \<longrightarrow> status d' \<noteq> Open)"
    by simp
qed

theorem status_never_reopens_witness:
  "run (created_store, created_held) \<and> sessions_coll created_store ''K3X9QA'' = Some open_session
   \<and> call_step (created_store, created_held) (started_store, started_held)
   \<and> (\<exists>d'. sessions_coll started_store ''K3X9QA'' = Some d'
          \<and> moves (status open_session) (status d') \<and> status d' = Voting)
   \<and> run (started_store, started_held) \<and> sessions_coll started_store ''K3X9QA'' = Some sample_session
   \<and> call_step\<^sup>*\<^sup>* (started_store, started_held) (crossed_store, crossed_held)
   \<and> status sample_session \<noteq> Open
   \<and> (\<exists>d'. sessions_coll crossed_store ''K3X9QA'' = Some d' \<and> status d' \<noteq> Open)"
proof -
  have d: "sessions_coll created_store ''K3X9QA'' = Some open_session"
    by (simp add: created_store_def)
  have e: "sessions_coll started_store ''K3X9QA'' = Some sample_session"
    by (simp add: started_store_def)
  have v: "status sample_session = Voting" by (simp add: sample_session_def)
  have rs: "run (started_store, started_held)" by (rule run_started)
  have cs: "call_step\<^sup>*\<^sup>* (started_store, started_held) (crossed_store, crossed_held)"
    using step_restarted step_crossed by auto
  from status_never_reopens [OF run_created d] step_started
  obtain d1 where 1: "sessions_coll started_store ''K3X9QA'' = Some d1"
    "moves (status open_session) (status d1)" by force
  from status_never_reopens [OF rs e] cs v
  obtain d2 where 2: "sessions_coll crossed_store ''K3X9QA'' = Some d2" "status d2 \<noteq> Open"
    by force
  from 1 e v have "status d1 = Voting" by simp
  with 1 2 run_created d step_started rs e cs v show ?thesis by auto
qed

subsection \<open>The tally and the winner\<close>

lemma first_seen_snoc:
  "first_seen (ks @ [k]) = (if k \<in> set ks then first_seen ks else first_seen ks @ [k])"
  by (simp add: first_seen_def)

lemma set_first_seen: "set (first_seen ks) = set ks"
  by (simp add: first_seen_def)

lemma distinct_first_seen: "distinct (first_seen ks)"
  by (simp add: first_seen_def)

lemma assign_new: "k \<notin> fst ` set ps \<Longrightarrow> assign ps k v = ps @ [(k, v)]"
  by (induction ps) auto

lemma assign_map:
  "k \<in> set xs \<Longrightarrow> distinct xs \<Longrightarrow>
   assign (map (\<lambda>x. (x, f x)) xs) k v = map (\<lambda>x. (x, if x = k then v else f x)) xs"
proof (induction xs)
  case Nil
  then show ?case by simp
next
  case (Cons x xs)
  show ?case
  proof (cases "x = k")
    case True
    with Cons.prems have "k \<notin> set xs" by simp
    then have "map (\<lambda>x. (x, if x = k then v else f x)) xs = map (\<lambda>x. (x, f x)) xs"
      by (intro map_cong) auto
    with True show ?thesis by simp
  next
    case False
    with Cons show ?thesis by simp
  qed
qed

lemma map_of_keyed: "map_of (map (\<lambda>x. (x, f x)) xs) k = (if k \<in> set xs then Some (f k) else None)"
  by (induction xs) auto

lemma ordinary_not_proto: "ordinary k \<Longrightarrow> k \<noteq> ''__proto__'' \<and> \<not> inherited k"
  by (auto simp: ordinary_def inherited_def)

lemma foldl_bump:
  assumes "\<forall>k\<in>set ks. ordinary k"
  shows "foldl bump [] ks = map (\<lambda>k. (k, Some (count_list ks k))) (first_seen ks)"
  using assms
proof (induction ks rule: rev_induct)
  case Nil
  show ?case by (simp add: first_seen_def)
next
  case (snoc k ks)
  then have IH: "foldl bump [] ks = map (\<lambda>x. (x, Some (count_list ks x))) (first_seen ks)"
    and ok: "ordinary k" by simp_all
  show ?case
  proof (cases "k \<in> set ks")
    case True
    then have m: "map_of (foldl bump [] ks) k = Some (Some (count_list ks k))"
      by (simp add: IH map_of_keyed set_first_seen)
    have "bump (foldl bump [] ks) k = assign (foldl bump [] ks) k (Some (count_list ks k + 1))"
      by (simp add: bump_def m)
    also have "\<dots> = map (\<lambda>x. (x, if x = k then Some (count_list ks k + 1) else Some (count_list ks x)))
                      (first_seen ks)"
      unfolding IH using True by (intro assign_map) (simp_all add: set_first_seen distinct_first_seen)
    also have "\<dots> = map (\<lambda>x. (x, Some (count_list (ks @ [k]) x))) (first_seen (ks @ [k]))"
      using True by (auto simp: first_seen_snoc)
    finally show ?thesis by simp
  next
    case False
    then have m: "map_of (foldl bump [] ks) k = None"
      by (simp add: IH map_of_keyed set_first_seen)
    have nk: "k \<notin> fst ` set (foldl bump [] ks)"
      using False by (auto simp: IH set_first_seen)
    have "bump (foldl bump [] ks) k = assign (foldl bump [] ks) k (Some 1)"
      using ordinary_not_proto [OF ok] by (simp add: bump_def m)
    also have "\<dots> = foldl bump [] ks @ [(k, Some 1)]" using nk by (rule assign_new)
    also have "\<dots> = map (\<lambda>x. (x, Some (count_list (ks @ [k]) x))) (first_seen (ks @ [k]))"
      using False by (auto simp: IH first_seen_snoc set_first_seen)
    finally show ?thesis by simp
  qed
qed

lemma vote_count_count_list: "vote_count vs k = count_list (map restaurantId vs) k"
  by (induction vs) (auto simp: vote_count_def)

lemma tally_counts:
  assumes "\<forall>v\<in>set vs. ordinary (restaurantId v)"
  shows "tally vs = map (\<lambda>k. (k, Some (vote_count vs k))) (first_seen (map restaurantId vs))"
  using assms by (simp add: tally_def foldl_bump vote_count_count_list)

lemma insort_key_map:
  "insort_key f (h x) (map h xs) = map h (insort_key (\<lambda>a. f (h a)) x xs)"
  by (induction xs) auto

lemma sort_key_map: "sort_key f (map h xs) = map h (sort_key (\<lambda>a. f (h a)) xs)"
  by (induction xs) (auto simp: insort_key_map)

lemma Object_entries_keyed:
  "Object_entries (map (\<lambda>k. (k, g k)) ks)
     = map (\<lambda>k. (k, g k))
         (sort_key index_key (filter (\<lambda>k. array_index k \<noteq> None) ks)
          @ filter (\<lambda>k. array_index k = None) ks)"
  by (simp add: Object_entries_def filter_map sort_key_map comp_def)

lemma entries_tally:
  assumes "\<forall>v\<in>set vs. ordinary (restaurantId v)"
  shows "Object_entries (tally vs) = map (\<lambda>k. (k, Some (vote_count vs k))) (ballot_order vs)"
  by (simp add: tally_counts [OF assms] Object_entries_keyed ballot_order_def Let_def)

lemma set_ballot_order: "set (ballot_order vs) = restaurantId ` set vs"
  by (auto simp: ballot_order_def Let_def set_first_seen)

lemma foldl_pick:
  "foldl pick (wo, m) (map (\<lambda>k. (k, Some (c k))) ks) = (wo', m') \<Longrightarrow>
     ((wo', m') = (wo, m) \<and> (\<forall>k\<in>set ks. int (c k) \<le> m))
     \<or> (\<exists>pre w post. ks = pre @ w # post \<and> wo' = Some w \<and> m' = int (c w) \<and> m < int (c w)
           \<and> (\<forall>k\<in>set pre. c k < c w) \<and> (\<forall>k\<in>set post. c k \<le> c w))"
proof (induction ks arbitrary: wo' m' rule: rev_induct)
  case Nil
  then show ?case by simp
next
  case (snoc k ks)
  obtain wo1 m1 where s1: "foldl pick (wo, m) (map (\<lambda>k. (k, Some (c k))) ks) = (wo1, m1)"
    by (cases "foldl pick (wo, m) (map (\<lambda>k. (k, Some (c k))) ks)") auto
  from snoc.prems s1 have r: "(wo', m') = pick (wo1, m1) (k, Some (c k))" by simp
  from snoc.IH [OF s1] show ?case
  proof
    assume a: "(wo1, m1) = (wo, m) \<and> (\<forall>k\<in>set ks. int (c k) \<le> m)"
    show ?thesis
    proof (cases "int (c k) > m")
      case True
      with a r have "ks @ [k] = ks @ k # [] \<and> wo' = Some k \<and> m' = int (c k) \<and> m < int (c k)
          \<and> (\<forall>x\<in>set ks. c x < c k) \<and> (\<forall>x\<in>set []. c x \<le> c k)"
        by fastforce
      then show ?thesis by blast
    next
      case False
      with a r show ?thesis by auto
    qed
  next
    assume "\<exists>pre w post. ks = pre @ w # post \<and> wo1 = Some w \<and> m1 = int (c w) \<and> m < int (c w)
           \<and> (\<forall>k\<in>set pre. c k < c w) \<and> (\<forall>k\<in>set post. c k \<le> c w)"
    then obtain pre w post where b: "ks = pre @ w # post" "wo1 = Some w" "m1 = int (c w)"
      "m < int (c w)" "\<forall>k\<in>set pre. c k < c w" "\<forall>k\<in>set post. c k \<le> c w"
      by blast
    show ?thesis
    proof (cases "int (c k) > m1")
      case True
      with b r have "ks @ [k] = ks @ k # [] \<and> wo' = Some k \<and> m' = int (c k) \<and> m < int (c k)
          \<and> (\<forall>x\<in>set ks. c x < c k) \<and> (\<forall>x\<in>set []. c x \<le> c k)"
        by fastforce
      then show ?thesis by blast
    next
      case False
      with b r have "ks @ [k] = pre @ w # (post @ [k]) \<and> wo' = Some w \<and> m' = int (c w)
          \<and> m < int (c w) \<and> (\<forall>x\<in>set pre. c x < c w)
          \<and> (\<forall>x\<in>set (post @ [k]). c x \<le> c w)"
        by auto
      then show ?thesis by blast
    qed
  qed
qed

lemma vote_count_none: "k \<notin> restaurantId ` set vs \<Longrightarrow> vote_count vs k = 0"
  by (auto simp: vote_count_def filter_empty_conv)

lemma ballot_order_plain:
  assumes "\<forall>v\<in>set vs. array_index (restaurantId v) = None"
  shows "ballot_order vs = first_seen (map restaurantId vs)"
proof -
  have "\<forall>k\<in>set (first_seen (map restaurantId vs)). array_index k = None"
    using assms by (auto simp: set_first_seen)
  then have "filter (\<lambda>k. array_index k \<noteq> None) (first_seen (map restaurantId vs)) = []"
    and "filter (\<lambda>k. array_index k = None) (first_seen (map restaurantId vs))
          = first_seen (map restaurantId vs)"
    by (simp_all add: filter_empty_conv)
  then show ?thesis by (simp add: ballot_order_def Let_def)
qed

lemma winnerId_first_max:
  assumes ne: "vs \<noteq> []" and ok: "\<forall>v\<in>set vs. ordinary (restaurantId v)"
  shows "\<exists>pre w post. winnerId_of cs vs = Inr w \<and> ballot_order vs = pre @ w # post
     \<and> (\<forall>k\<in>set pre. vote_count vs k < vote_count vs w)
     \<and> (\<forall>k\<in>set post. vote_count vs k \<le> vote_count vs w)"
proof -
  let ?ks = "ballot_order vs"
  obtain wo' m' where f: "foldl pick (None, - 1) (map (\<lambda>k. (k, Some (vote_count vs k))) ?ks) = (wo', m')"
    by (cases "foldl pick (None, - 1) (map (\<lambda>k. (k, Some (vote_count vs k))) ?ks)") auto
  from ne have "?ks \<noteq> []" using set_ballot_order [of vs] by (cases vs) auto
  then obtain k0 where "k0 \<in> set ?ks" by (cases ?ks) auto
  then have "\<not> (\<forall>k\<in>set ?ks. int (vote_count vs k) \<le> - 1)" by force
  with foldl_pick [OF f] obtain pre w post where
    b: "?ks = pre @ w # post" "wo' = Some w"
       "\<forall>k\<in>set pre. vote_count vs k < vote_count vs w"
       "\<forall>k\<in>set post. vote_count vs k \<le> vote_count vs w"
    by blast
  from b(1) have "w \<in> set ?ks" by simp
  then have "w \<in> restaurantId ` set vs" by (simp add: set_ballot_order)
  with ok have "w \<noteq> []" by (auto simp: ordinary_def)
  with f b(2) ne have "winnerId_of cs vs = Inr w"
    by (simp add: winnerId_of_def entries_tally [OF ok])
  with b show ?thesis by blast
qed

text \<open>
  Claim C1, amended. Take a signed-in browser with its session document and a votes list
  that is not empty, every vote naming a candidate of the session by an id that is not
  empty and not a name inherited from \<^verbatim>\<open>Object.prototype\<close>. Then \<^verbatim>\<open>endVoting\<close> does
  not fail and stores, with the status finished, a winner \<open>w\<close> that is a candidate of
  the session (the first in the list with its id) and that no candidate exceeds in votes.
  Among the ids with the highest count it is the first in the order of
  \<^verbatim>\<open>Object.entries\<close> on the tally: every id before it in \<open>ballot_order\<close> has strictly
  fewer votes. That order lists the ids that are array indices first, by their number,
  and then the other ids in the order in which they first received a vote; when no voted
  id is an array index it is the order of first votes. A second run on the same input
  stores the same winner: it leaves the store as the first run left it.
\<close>

theorem endVoting_winner:
  assumes "user cl = Some u" and "sessionId cl = Some sid" and "sid \<noteq> []"
    and "sessionData cl = Some sd" and "sessions_coll st sid = Some d"
    and "votes cl \<noteq> []"
    and "\<forall>v\<in>set (votes cl). ordinary (restaurantId v)
            \<and> restaurantId v \<in> id_c ` set (candidates sd)"
  shows "\<exists>w pre post st'.
       st' = st\<lparr>sessions_coll := (sessions_coll st)(sid \<mapsto> d\<lparr>status := Finished, winner := Some w\<rparr>)\<rparr>
     \<and> endVoting (st, cl) = Inr (st', cl)
     \<and> find (\<lambda>c. id_c c = id_c w) (candidates sd) = Some w
     \<and> (\<forall>c\<in>set (candidates sd). vote_count (votes cl) (id_c c) \<le> vote_count (votes cl) (id_c w))
     \<and> ballot_order (votes cl) = pre @ id_c w # post
     \<and> (\<forall>k\<in>set pre. vote_count (votes cl) k < vote_count (votes cl) (id_c w))
     \<and> ((\<forall>v\<in>set (votes cl). array_index (restaurantId v) = None) \<longrightarrow>
          ballot_order (votes cl) = first_seen (map restaurantId (votes cl)))
     \<and> endVoting (st', cl) = Inr (st', cl)"
proof -
  let ?vs = "votes cl" and ?cs = "candidates sd"
  from assms(7) have ok: "\<forall>v\<in>set ?vs. ordinary (restaurantId v)" by blast
  from winnerId_first_max [OF assms(6) ok, of ?cs] obtain pre k post where
    w: "winnerId_of ?cs ?vs = Inr k" and b: "ballot_order ?vs = pre @ k # post"
    and lt: "\<forall>x\<in>set pre. vote_count ?vs x < vote_count ?vs k"
    and le: "\<forall>x\<in>set post. vote_count ?vs x \<le> vote_count ?vs k"
    by blast
  from b have "k \<in> set (ballot_order ?vs)" by simp
  then have "k \<in> restaurantId ` set ?vs" by (simp add: set_ballot_order)
  with assms(7) have "k \<in> id_c ` set ?cs" by blast
  then have "find (\<lambda>c. id_c c = k) ?cs \<noteq> None" by (auto simp: find_None_iff)
  then obtain c where c: "find (\<lambda>c. id_c c = k) ?cs = Some c" by auto
  then have idc: "id_c c = k" by (auto simp: find_Some_iff)
  from c have wo: "winner_of ?cs k = Some c" by (simp add: winner_of_def)
  let ?st' = "st\<lparr>sessions_coll := (sessions_coll st)(sid \<mapsto> d\<lparr>status := Finished, winner := Some c\<rparr>)\<rparr>"
  have run: "endVoting (st, cl) = Inr (?st', cl)"
    using assms(1-5) w wo by (simp add: endVoting_def updateDoc_session_def)
  have again: "endVoting (?st', cl) = Inr (?st', cl)"
    using assms(1-4) w wo by (simp add: endVoting_def updateDoc_session_def)
  have mx: "vote_count ?vs (id_c x) \<le> vote_count ?vs k" if "x \<in> set ?cs" for x
  proof (cases "id_c x \<in> set (ballot_order ?vs)")
    case True
    with b lt le show ?thesis by (auto simp: less_imp_le)
  next
    case False
    then have "vote_count ?vs (id_c x) = 0"
      by (simp add: set_ballot_order vote_count_none)
    then show ?thesis by simp
  qed
  have plain: "(\<forall>v\<in>set ?vs. array_index (restaurantId v) = None) \<longrightarrow>
          ballot_order ?vs = first_seen (map restaurantId ?vs)"
    by (simp add: ballot_order_plain)
  from run again c idc mx b lt plain show ?thesis
    by (intro exI [of _ c] exI [of _ pre] exI [of _ post] exI [of _ ?st']) simp
qed

theorem endVoting_winner_witness:
  "user tally_client = Some ''alex'' \<and> sessionId tally_client = Some ''K3X9QA''
   \<and> ''K3X9QA'' \<noteq> [] \<and> sessionData tally_client = Some sample_session
   \<and> sessions_coll tally_store ''K3X9QA'' = Some sample_session
   \<and> votes tally_client = [sam_vote, alex_vote, alex_vote2]
   \<and> list_all (\<lambda>v. ordinary (restaurantId v)
                  \<and> restaurantId v \<in> id_c ` set (candidates sample_session)) (votes tally_client)
   \<and> endVoting (tally_store, tally_client)
       = Inr (tally_store\<lparr>sessions_coll := (sessions_coll tally_store)(''K3X9QA'' \<mapsto>
                sample_session\<lparr>status := Finished, winner := Some r2\<rparr>)\<rparr>, tally_client)
   \<and> vote_count (votes tally_client) ''r2'' = 2 \<and> vote_count (votes tally_client) ''r1'' = 1
   \<and> ballot_order (votes tally_client) = [''r2'', ''r1'']
   \<and> (\<exists>w. find (\<lambda>c. id_c c = id_c w) (candidates sample_session) = Some w
          \<and> (\<forall>c\<in>set (candidates sample_session).
                vote_count (votes tally_client) (id_c c) \<le> vote_count (votes tally_client) (id_c w)))"
proof -
  have h: "user tally_client = Some ''alex''" "sessionId tally_client = Some ''K3X9QA''"
    "''K3X9QA'' \<noteq> []" "sessionData tally_client = Some sample_session"
    "sessions_coll tally_store ''K3X9QA'' = Some sample_session"
    "votes tally_client \<noteq> []"
    by (simp_all add: tally_client_def host_client_def tally_store_def voting_store_def)
  have vs: "votes tally_client = [sam_vote, alex_vote, alex_vote2]"
    by (simp add: tally_client_def)
  have ok: "\<forall>v\<in>set (votes tally_client). ordinary (restaurantId v)
            \<and> restaurantId v \<in> id_c ` set (candidates sample_session)"
    by (simp add: vs sam_vote_def alex_vote_def alex_vote2_def ordinary_def inherited_def
        sample_session_def r1_def r2_def r3_def r4_def r5_def)
  have cnt: "vote_count (votes tally_client) ''r2'' = 2" "vote_count (votes tally_client) ''r1'' = 1"
    by (simp_all add: vs vote_count_def sam_vote_def alex_vote_def alex_vote2_def)
  have bo: "ballot_order (votes tally_client) = [''r2'', ''r1'']"
    by (simp add: vs ballot_order_def first_seen_def sam_vote_def alex_vote_def alex_vote2_def
        array_index_def is_digit_def)
  have run: "endVoting (tally_store, tally_client)
       = Inr (tally_store\<lparr>sessions_coll := (sessions_coll tally_store)(''K3X9QA'' \<mapsto>
                sample_session\<lparr>status := Finished, winner := Some r2\<rparr>)\<rparr>, tally_client)"
    by (simp add: tally_client_def host_client_def tally_store_def voting_store_def
        sample_session_def sam_vote_def alex_vote_def alex_vote2_def
        endVoting_def winnerId_of_def winner_of_def updateDoc_session_def Object_entries_def
        tally_def bump_def inherited_def array_index_def is_digit_def index_key_def
        r1_def r2_def r3_def r4_def r5_def)
  from endVoting_winner [OF h ok] obtain w where
    "find (\<lambda>c. id_c c = id_c w) (candidates sample_session) = Some w"
    "\<forall>c\<in>set (candidates sample_session).
        vote_count (votes tally_client) (id_c c) \<le> vote_count (votes tally_client) (id_c w)"
    by blast
  with h vs ok cnt bo run show ?thesis by (auto simp: list_all_iff)
qed

text \<open>
  Claim C1, as the claim states it, fails in what it says of the order of the tally. The
  candidates with the ids \<open>2\<close> and \<open>1\<close> have one vote each and \<open>2\<close> received its vote
  first, but the stored winner is \<open>1\<close>: \<^verbatim>\<open>Object.entries\<close> lists keys that are array
  indices in ascending numeric order, whatever the order of their creation.
\<close>

theorem endVoting_tie_counterexample:
  "first_seen (map restaurantId numbered_votes) = [''2'', ''1'']
   \<and> vote_count numbered_votes ''2'' = 1 \<and> vote_count numbered_votes ''1'' = 1
   \<and> map id_c (candidates numbered_session) = [''2'', ''1'']
   \<and> votes numbered_client = numbered_votes \<and> sessionData numbered_client = Some numbered_session
   \<and> (case endVoting (numbered_store, numbered_client) of
        Inl e \<Rightarrow> False
      | Inr (st', cl') \<Rightarrow>
          map_option (map_option id_c \<circ> winner) (sessions_coll st' ''K3X9QA'') = Some (Some ''1''))"
  by (simp add: first_seen_def vote_count_def numbered_votes_def numbered_session_def
      numbered_store_def numbered_client_def host_client_def sample_session_def sample_store_def
      endVoting_def winnerId_of_def winner_of_def updateDoc_session_def Object_entries_def
      tally_def bump_def inherited_def array_index_def is_digit_def decimal_def index_key_def
      r1_def r2_def)

end
